theory Spec2Isabelle
  imports Complex_Main
begin

section \<open>Catalog (Detection module, PRODUCTS)\<close>

text \<open>
  A product of the catalog. JavaScript numbers that only ever hold small integers
  (ids, prices in DZD, counters) are modelled by unbounded integers; they are exact in
  the source up to \<open>2 ^ 53\<close>. Record fields carry the record's name as a prefix,
  because several objects of the source share the property names \<open>id\<close>,
  \<open>price\<close>, \<open>nameAr\<close>, \<open>nameEn\<close> and \<open>confidence\<close>.
\<close>

record product =
  product_id :: nat
  product_nameAr :: string
  product_nameEn :: string
  product_price :: int
  product_modelClass :: string

text \<open>The Arabic names are written as their UTF-8 bytes.\<close>

definition PRODUCTS :: "product list" where
  "PRODUCTS =
    [\<lparr>product_id = 1,
      product_nameAr = [CHR 0xD9, CHR 0x82, CHR 0xD9, CHR 0x87, CHR 0xD9, CHR 0x88, CHR 0xD8, CHR 0xA9],
      product_nameEn = ''Coffee'', product_price = 100, product_modelClass = ''caffee''\<rparr>,
     \<lparr>product_id = 2,
      product_nameAr = [CHR 0xD9, CHR 0x85, CHR 0xD8, CHR 0xA7, CHR 0xD8, CHR 0xA1],
      product_nameEn = ''Water'', product_price = 30, product_modelClass = ''water''\<rparr>]"

section \<open>Cart module (js/cart.js)\<close>

text \<open>
  A cart item as \<open>addItem\<close> builds it. \<open>confidence\<close> defaults to \<open>null\<close>
  (\<open>None\<close>); \<open>addedAt\<close> is the ISO timestamp the host clock returns.
\<close>

record cartItem =
  item_id :: nat
  item_productId :: nat
  item_nameAr :: string
  item_nameEn :: string
  item_price :: int
  item_confidence :: "real option"
  item_addedAt :: string

text \<open>The module's private state: \<open>let items = []; let itemIdCounter = 0\<close>.\<close>

record cart =
  items :: "cartItem list"
  itemIdCounter :: nat

definition cart_init :: cart where
  "cart_init = \<lparr>items = [], itemIdCounter = 0\<rparr>"

text \<open>
  \<open>addItem(product, confidence = null)\<close>: pre-increments the counter, appends the new
  item and returns it. The third argument is what \<open>new Date().toISOString()\<close> gives at
  the call. Rendering and button updates touch only the page and are left out.
\<close>

definition addItem :: "cart \<Rightarrow> product \<Rightarrow> real option \<Rightarrow> string \<Rightarrow> cartItem \<times> cart" where
  "addItem c p confidence now =
    (let counter = itemIdCounter c + 1;
         cartItem = \<lparr>item_id = counter, item_productId = product_id p,
                     item_nameAr = product_nameAr p, item_nameEn = product_nameEn p,
                     item_price = product_price p, item_confidence = confidence,
                     item_addedAt = now\<rparr>
     in (cartItem, c\<lparr>items := items c @ [cartItem], itemIdCounter := counter\<rparr>))"

text \<open>\<open>items.findIndex(item => item.id === itemId)\<close>: the first index, or \<open>-1\<close> (\<open>None\<close>).\<close>

fun findIndex :: "('a \<Rightarrow> bool) \<Rightarrow> 'a list \<Rightarrow> nat option" where
  "findIndex P [] = None"
| "findIndex P (x # xs) =
    (if P x then Some 0 else map_option Suc (findIndex P xs))"

text \<open>\<open>items.splice(index, 1)\<close> for an index in range: the list without that element.\<close>

definition splice1 :: "nat \<Rightarrow> 'a list \<Rightarrow> 'a list" where
  "splice1 index xs = take index xs @ drop (Suc index) xs"

definition removeItem :: "cart \<Rightarrow> nat \<Rightarrow> cart" where
  "removeItem c itemId =
    (case findIndex (\<lambda>item. item_id item = itemId) (items c) of
       None \<Rightarrow> c
     | Some index \<Rightarrow> c\<lparr>items := splice1 index (items c)\<rparr>)"

definition clearCart :: "cart \<Rightarrow> cart" where
  "clearCart c = c\<lparr>items := []\<rparr>"

text \<open>\<open>items.reduce((sum, item) => sum + item.price, 0)\<close>.\<close>

definition getTotal :: "cart \<Rightarrow> int" where
  "getTotal c = foldl (\<lambda>sum item. sum + item_price item) 0 (items c)"

definition getItemCount :: "cart \<Rightarrow> nat" where
  "getItemCount c = length (items c)"

definition getItems :: "cart \<Rightarrow> cartItem list" where
  "getItems c = items c"

record orderData =
  order_items :: "cartItem list"
  order_total :: int
  order_itemsCount :: nat

definition getOrderData :: "cart \<Rightarrow> orderData" where
  "getOrderData c =
    \<lparr>order_items = getItems c, order_total = getTotal c, order_itemsCount = getItemCount c\<rparr>"

definition isEmpty :: "cart \<Rightarrow> bool" where
  "isEmpty c = (length (items c) = 0)"

text \<open>The public mutating operations of the cart, as a caller issues them.\<close>

datatype cartOp =
  AddItem product "real option" string
  | RemoveItem nat
  | ClearCart

fun cart_apply :: "cart \<Rightarrow> cartOp \<Rightarrow> cart" where
  "cart_apply c (AddItem p confidence now) = snd (addItem c p confidence now)"
| "cart_apply c (RemoveItem itemId) = removeItem c itemId"
| "cart_apply c ClearCart = clearCart c"

definition cart_run :: "cart \<Rightarrow> cartOp list \<Rightarrow> cart" where
  "cart_run c ops = foldl cart_apply c ops"

text \<open>The ids that the \<open>addItem\<close> calls of a run return, in call order.\<close>

fun issued_ids :: "cart \<Rightarrow> cartOp list \<Rightarrow> nat list" where
  "issued_ids c [] = []"
| "issued_ids c (AddItem p confidence now # ops) =
    item_id (fst (addItem c p confidence now)) # issued_ids (snd (addItem c p confidence now)) ops"
| "issued_ids c (RemoveItem itemId # ops) = issued_ids (removeItem c itemId) ops"
| "issued_ids c (ClearCart # ops) = issued_ids (clearCart c) ops"

text \<open>No item of the cart carries an id above the counter.\<close>

definition ids_bounded :: "cart \<Rightarrow> bool" where
  "ids_bounded c = list_all (\<lambda>item. item_id item \<le> itemIdCounter c) (items c)"

section \<open>Detection module\<close>

subsection \<open>Strings of the host language\<close>

text \<open>
  \<open>String.prototype.trim\<close> and \<open>toLowerCase\<close> on byte strings. The class names and
  the catalog's \<open>modelClass\<close> values are ASCII, so white space is the ASCII white space
  (tab, line feed, vertical tab, form feed, carriage return, space) and case folding maps
  \<open>A\<close>..\<open>Z\<close> to \<open>a\<close>..\<open>z\<close>; every other byte is kept.
\<close>

definition isWhiteSpace :: "char \<Rightarrow> bool" where
  "isWhiteSpace c = (c \<in> set [CHR 0x09, CHR 0x0A, CHR 0x0B, CHR 0x0C, CHR 0x0D, CHR 0x20])"

definition trim :: "string \<Rightarrow> string" where
  "trim s = rev (dropWhile isWhiteSpace (rev (dropWhile isWhiteSpace s)))"

definition toLowerCaseChar :: "char \<Rightarrow> char" where
  "toLowerCaseChar c =
    (case map_of (zip ''ABCDEFGHIJKLMNOPQRSTUVWXYZ'' ''abcdefghijklmnopqrstuvwxyz'') c of
       Some l \<Rightarrow> l
     | None \<Rightarrow> c)"

definition toLowerCase :: "string \<Rightarrow> string" where
  "toLowerCase s = map toLowerCaseChar s"

subsection \<open>Settings and model state\<close>

definition MIN_CONFIDENCE :: real where
  "MIN_CONFIDENCE = 0.5"

text \<open>The class names in the order of the model's outputs (\<open>classNames\<close>).\<close>

definition classNames :: "string list" where
  "classNames = [''caffee'', ''water'', ''empty'']"

text \<open>
  A value thrown by the code or the runtime: \<open>new Error(message)\<close>, the
  \<open>TypeError\<close> raised when a property of \<open>undefined\<close> or \<open>null\<close> is read, the
  \<open>SyntaxError\<close> of \<open>JSON.parse\<close>.
\<close>

datatype error = Error string | TypeError string | SyntaxError string

text \<open>The object \<open>tf.loadLayersModel\<close> resolves to, named by the path it was read from.\<close>

datatype layersModel = LayersModel string

text \<open>\<open>let model = null; let modelLoading = false; let modelLoaded = false\<close>.\<close>

record detectionState =
  model :: "layersModel option"
  modelLoading :: bool
  modelLoaded :: bool

definition detection_init :: detectionState where
  "detection_init = \<lparr>model = None, modelLoading = False, modelLoaded = False\<rparr>"

text \<open>
  \<open>loadModel\<close> is asynchronous: it runs up to \<open>await tf.loadLayersModel(...)\<close>, and
  resumes when that promise settles. \<open>CallLoadModel tfDefined\<close> is the call itself
  (\<open>tfDefined\<close>: whether the global \<open>tf\<close> exists); \<open>LoadResolved m\<close> and
  \<open>LoadRejected\<close> resume a call that is waiting. A call made while the model is
  loaded or loading returns at once; a call without \<open>tf\<close> sets and clears
  \<open>modelLoading\<close> within the same turn and throws.
\<close>

datatype loadEvent = CallLoadModel bool | LoadResolved layersModel | LoadRejected

fun loadModel_step :: "detectionState \<Rightarrow> loadEvent \<Rightarrow> detectionState" where
  "loadModel_step s (CallLoadModel tfDefined) =
    (if modelLoaded s then s
     else if modelLoading s then s
     else if \<not> tfDefined then s\<lparr>modelLoading := False\<rparr>
     else s\<lparr>modelLoading := True\<rparr>)"
| "loadModel_step s (LoadResolved m) =
    (if modelLoading s then s\<lparr>model := Some m, modelLoaded := True, modelLoading := False\<rparr>
     else s)"
| "loadModel_step s LoadRejected =
    (if modelLoading s then s\<lparr>modelLoading := False\<rparr> else s)"

definition loadModel_run :: "loadEvent list \<Rightarrow> detectionState" where
  "loadModel_run evs = foldl loadModel_step detection_init evs"

definition isModelLoaded :: "detectionState \<Rightarrow> bool" where
  "isModelLoaded s = modelLoaded s"

subsection \<open>Mapping a class name to a product\<close>

text \<open>
  \<open>PRODUCTS.find(p => p.modelClass.trim().toLowerCase() === cleanName) || null\<close>,
  with \<open>cleanName = className.trim().toLowerCase()\<close>.
\<close>

definition mapClassToProduct :: "string \<Rightarrow> product option" where
  "mapClassToProduct className =
    (let cleanName = toLowerCase (trim className)
     in find (\<lambda>p. toLowerCase (trim (product_modelClass p)) = cleanName) PRODUCTS)"

definition getProductById :: "nat \<Rightarrow> product option" where
  "getProductById i = find (\<lambda>p. product_id p = i) PRODUCTS"

subsection \<open>detectObjects\<close>

text \<open>
  The video element, as far as the code reads it. \<open>videoWidth\<close> and \<open>videoHeight\<close>
  are \<open>0\<close> until the dimensions are known.
\<close>

record videoElement =
  readyState :: nat
  videoWidth :: nat
  videoHeight :: nat

record boundingBox =
  box_x :: real
  box_y :: real
  box_width :: real
  box_height :: real

record detection =
  det_product :: product
  det_className :: string
  det_confidence :: real
  det_displayName :: string
  det_boundingBox :: boundingBox

text \<open>
  The loop that finds the class with the highest probability, started with
  \<open>maxProb = 0\<close>, \<open>maxIndex = 0\<close> at \<open>i = 0\<close>. An entry replaces the maximum only
  when it is strictly greater, so the first of several equal entries wins. A \<open>NaN\<close>
  entry never compares greater and so behaves as the entry \<open>0\<close> does.
\<close>

fun maxLoop :: "real list \<Rightarrow> nat \<Rightarrow> real \<Rightarrow> nat \<Rightarrow> real \<times> nat" where
  "maxLoop [] i maxProb maxIndex = (maxProb, maxIndex)"
| "maxLoop (p # ps) i maxProb maxIndex =
    (if p > maxProb then maxLoop ps (Suc i) p i else maxLoop ps (Suc i) maxProb maxIndex)"

definition winner :: "real list \<Rightarrow> real \<times> nat" where
  "winner probabilities = maxLoop probabilities 0 0 0"

text \<open>\<open>classNames[maxIndex] || 'unknown'\<close>.\<close>

definition classNameAt :: "nat \<Rightarrow> string" where
  "classNameAt maxIndex =
    (if maxIndex < length classNames then classNames ! maxIndex else ''unknown'')"

text \<open>The confidence and the class name \<open>detectObjects\<close> works with.\<close>

definition winningConfidence :: "real list \<Rightarrow> real" where
  "winningConfidence probabilities = fst (winner probabilities)"

definition winningLabel :: "real list \<Rightarrow> string" where
  "winningLabel probabilities = classNameAt (snd (winner probabilities))"

text \<open>The cosmetic box: 60% of the shorter side, centred; \<open>640 x 480\<close> when unknown.\<close>

definition centredBox :: "videoElement \<Rightarrow> boundingBox" where
  "centredBox v =
    (let w = (if videoWidth v = 0 then 640 else real (videoWidth v));
         h = (if videoHeight v = 0 then 480 else real (videoHeight v));
         boxSize = min w h * 0.6
     in \<lparr>box_x = (w - boxSize) / 2, box_y = (h - boxSize) / 2,
         box_width = boxSize, box_height = boxSize\<rparr>)"

text \<open>
  \<open>detectObjects(videoElement)\<close>. The second argument is the element or \<open>null\<close>. The
  third is what the body of the \<open>try\<close> block obtains from the runtime for the current
  frame: \<open>Some probabilities\<close> when preprocessing, \<open>model.predict\<close>,
  \<open>prediction.data()\<close> and \<open>tf.dispose\<close> all return, \<open>None\<close> when one of them
  throws. \<open>Inl\<close> is a rejected promise, \<open>Inr\<close> the array it resolves to.
\<close>

definition detectObjects ::
  "detectionState \<Rightarrow> videoElement option \<Rightarrow> real list option \<Rightarrow> error + detection list" where
  "detectObjects s videoElement inference =
    (if \<not> modelLoaded s \<or> model s = None then Inl (Error ''Model not loaded'')
     else case videoElement of
       None \<Rightarrow> Inr []
     | Some v \<Rightarrow>
        if readyState v < 2 then Inr []
        else case inference of
          None \<Rightarrow> Inr []
        | Some probabilities \<Rightarrow>
           (let confidence = winningConfidence probabilities;
                className = winningLabel probabilities
            in if confidence < MIN_CONFIDENCE then Inr []
               else if className = ''empty'' then Inr []
               else case mapClassToProduct className of
                 Some p \<Rightarrow>
                   Inr [\<lparr>det_product = p, det_className = className,
                         det_confidence = confidence,
                         det_displayName = product_nameAr p @ '' / '' @ product_nameEn p,
                         det_boundingBox = centredBox v\<rparr>]
               | None \<Rightarrow> Inr []))"

text \<open>
  The catalog match of the specification: some catalog entry's label equals the given
  label after trimming and case folding both.
\<close>

definition matchesCatalog :: "string \<Rightarrow> bool" where
  "matchesCatalog label =
    (\<exists>p \<in> set PRODUCTS. toLowerCase (trim (product_modelClass p)) = toLowerCase (trim label))"

text \<open>
  The arg-max of the specification: index \<open>k\<close> holds the highest probability of the
  vector, and no earlier index holds it (ties are broken by first occurrence).
\<close>

definition firstMaximum :: "real list \<Rightarrow> nat \<Rightarrow> bool" where
  "firstMaximum ps k =
    (k < length ps \<and> list_all (\<lambda>p. p \<le> ps ! k) ps \<and> list_all (\<lambda>p. p < ps ! k) (take k ps))"

subsection \<open>Continuous detection\<close>

text \<open>
  The module variables \<open>continuousDetectionId\<close> and \<open>continuousDetectionCallback\<close>,
  together with the part of the host that the polling loop lives in: the timeouts that
  are armed, the handle the next \<open>setTimeout\<close> returns (handles are positive), the
  number of \<open>detectFrame\<close> activations suspended at \<open>await detectObjects(...)\<close>,
  and whether \<open>document.getElementById('videoFeed')\<close> finds an element. Two counters
  record what the loop has done: the calls of \<open>detectObjects\<close> it has made and the
  calls of the callback, each with its argument. Callbacks are assumed to return.
\<close>

record 'cb poller =
  detectionModule :: detectionState
  continuousDetectionId :: "nat option"
  continuousDetectionCallback :: "'cb option"
  videoFeed :: bool
  timers :: "nat list"
  nextTimer :: nat
  inFlight :: nat
  cyclesStarted :: nat
  invocations :: "('cb \<times> detection list) list"

definition poller_init :: "detectionState \<Rightarrow> bool \<Rightarrow> 'cb poller" where
  "poller_init d feed =
    \<lparr>detectionModule = d, continuousDetectionId = None, continuousDetectionCallback = None,
     videoFeed = feed, timers = [], nextTimer = 1, inFlight = 0, cyclesStarted = 0,
     invocations = []\<rparr>"

text \<open>The test \<open>if (continuousDetectionId)\<close>: neither \<open>null\<close> nor \<open>0\<close>.\<close>

fun truthyId :: "nat option \<Rightarrow> bool" where
  "truthyId None = False"
| "truthyId (Some n) = (n \<noteq> 0)"

text \<open>\<open>continuousDetectionId = setTimeout(detectFrame, interval)\<close>.\<close>

definition setTimeout_detectFrame :: "'cb poller \<Rightarrow> 'cb poller" where
  "setTimeout_detectFrame s =
    s\<lparr>continuousDetectionId := Some (nextTimer s), timers := timers s @ [nextTimer s],
      nextTimer := nextTimer s + 1\<rparr>"

text \<open>
  \<open>detectFrame\<close> up to its \<open>await\<close>: with a video element it calls
  \<open>detectObjects\<close> and suspends; without one it goes straight to \<open>setTimeout\<close>.
\<close>

definition detectFrame :: "'cb poller \<Rightarrow> 'cb poller" where
  "detectFrame s =
    (if videoFeed s then s\<lparr>inFlight := inFlight s + 1, cyclesStarted := cyclesStarted s + 1\<rparr>
     else setTimeout_detectFrame s)"

text \<open>
  \<open>detectFrame\<close> after its \<open>await\<close>, given what \<open>detectObjects\<close> settled with: a
  rejection leaves the function; a result is passed to the callback if one is set, and
  the next timeout is armed.
\<close>

definition detectFrame_resume :: "'cb poller \<Rightarrow> error + detection list \<Rightarrow> 'cb poller" where
  "detectFrame_resume s outcome =
    (case outcome of
       Inl e \<Rightarrow> s
     | Inr detections \<Rightarrow>
         setTimeout_detectFrame
           (case continuousDetectionCallback s of
              Some callback \<Rightarrow> s\<lparr>invocations := invocations s @ [(callback, detections)]\<rparr>
            | None \<Rightarrow> s))"

definition startContinuousDetection :: "'cb poller \<Rightarrow> 'cb \<Rightarrow> 'cb poller" where
  "startContinuousDetection s callback =
    (if truthyId (continuousDetectionId s) then s
     else if \<not> modelLoaded (detectionModule s) then s
     else detectFrame (s\<lparr>continuousDetectionCallback := Some callback\<rparr>))"

text \<open>\<open>clearTimeout(id)\<close> disarms the timeout with that handle, if it is still armed.\<close>

definition stopContinuousDetection :: "'cb poller \<Rightarrow> 'cb poller" where
  "stopContinuousDetection s =
    (case continuousDetectionId s of
       None \<Rightarrow> s
     | Some t \<Rightarrow>
         if t \<noteq> 0
         then s\<lparr>timers := removeAll t (timers s), continuousDetectionId := None,
                continuousDetectionCallback := None\<rparr>
         else s)"

definition isContinuousDetectionRunning :: "'cb poller \<Rightarrow> bool" where
  "isContinuousDetectionRunning s = (continuousDetectionId s \<noteq> None)"

text \<open>
  What can happen to the poller: the two public calls, an armed timeout firing, and a
  pending \<open>detectObjects\<close> settling. \<open>DetectionSettles v inference\<close> carries the
  video element as that call read it and what the runtime made of its frame. An event
  that is not enabled (a timeout that is not armed, a settlement with nothing in flight)
  changes nothing.
\<close>

datatype 'cb pollerEvent =
  Start 'cb
  | Stop
  | TimerFires nat
  | DetectionSettles videoElement "real list option"

fun poller_step :: "'cb poller \<Rightarrow> 'cb pollerEvent \<Rightarrow> 'cb poller" where
  "poller_step s (Start callback) = startContinuousDetection s callback"
| "poller_step s Stop = stopContinuousDetection s"
| "poller_step s (TimerFires t) =
    (if t \<in> set (timers s) then detectFrame (s\<lparr>timers := removeAll t (timers s)\<rparr>) else s)"
| "poller_step s (DetectionSettles v inference) =
    (if inFlight s > 0
     then detectFrame_resume (s\<lparr>inFlight := inFlight s - 1\<rparr>)
            (detectObjects (detectionModule s) (Some v) inference)
     else s)"

definition poller_run :: "'cb poller \<Rightarrow> 'cb pollerEvent list \<Rightarrow> 'cb poller" where
  "poller_run s evs = foldl poller_step s evs"

text \<open>The loaded module state, and a poller on it with the video element present.\<close>

definition detection_loaded :: detectionState where
  "detection_loaded =
    \<lparr>model = Some (LayersModel ''./model/model.json''), modelLoading = False, modelLoaded = True\<rparr>"

definition poller_ready :: "string poller" where
  "poller_ready = poller_init detection_loaded True"

text \<open>A decodable frame that the classifier takes for coffee, and the detection it gives.\<close>

definition frame_ready :: videoElement where
  "frame_ready = \<lparr>readyState = 4, videoWidth = 1280, videoHeight = 720\<rparr>"

definition probabilities_coffee :: "real list" where
  "probabilities_coffee = [0.82, 0.10, 0.08]"

definition detection_coffee :: detection where
  "detection_coffee =
    \<lparr>det_product = PRODUCTS ! 0, det_className = ''caffee'', det_confidence = 0.82,
     det_displayName = product_nameAr (PRODUCTS ! 0) @ '' / '' @ product_nameEn (PRODUCTS ! 0),
     det_boundingBox = \<lparr>box_x = 424, box_y = 144, box_width = 432, box_height = 432\<rparr>\<rparr>"

text \<open>Events other than a call of \<open>start\<close>.\<close>

fun isStart :: "'cb pollerEvent \<Rightarrow> bool" where
  "isStart (Start callback) = True"
| "isStart ev = False"

text \<open>A poller with nothing armed, nothing in flight, no handle and no callback.\<close>

definition idle :: "'cb poller \<Rightarrow> bool" where
  "idle s = (timers s = [] \<and> inFlight s = 0 \<and> continuousDetectionId s = None
             \<and> continuousDetectionCallback s = None)"

text \<open>
  The ready poller after \<open>start\<close> and the completion of the first cycle: one timeout
  armed, nothing in flight.
\<close>

definition poller_waiting :: "string poller" where
  "poller_waiting =
    poller_run poller_ready [Start ''cb'', DetectionSettles frame_ready (Some probabilities_coffee)]"

text \<open>The same poller after that timeout has fired: the second cycle is in flight.\<close>

definition poller_second_cycle :: "string poller" where
  "poller_second_cycle = poller_run poller_waiting [TimerFires 1]"

section \<open>Stats module (js/stats.js)\<close>

text \<open>
  The value of a property of the \<open>stats\<close> object. The module creates the object with
  three numbers, but \<open>loadStats\<close> replaces it by whatever \<open>JSON.parse\<close> returns, so
  a property can also be missing (\<open>undefined\<close>) or \<open>null\<close>, and arithmetic on a
  missing property yields \<open>NaN\<close>. Numbers are integers here (counts and DZD amounts).
  Strings, booleans and nested values as property values are not modelled.
\<close>

datatype jsValue = Undefined | Null | NaN | Number int

record statsObject =
  itemsScanned :: jsValue
  ordersCompleted :: jsValue
  totalRevenue :: jsValue

definition stats_zero :: statsObject where
  "stats_zero = \<lparr>itemsScanned = Number 0, ordersCompleted = Number 0, totalRevenue = Number 0\<rparr>"

text \<open>\<open>x += n\<close> for a number \<open>n\<close>: \<open>null\<close> converts to \<open>0\<close>, \<open>undefined\<close> to \<open>NaN\<close>.\<close>

fun jsAdd :: "jsValue \<Rightarrow> int \<Rightarrow> jsValue" where
  "jsAdd (Number a) n = Number (a + n)"
| "jsAdd Null n = Number n"
| "jsAdd Undefined n = NaN"
| "jsAdd NaN n = NaN"

text \<open>
  A text held in \<open>localStorage\<close>, by what \<open>JSON.parse\<close> makes of it: a
  \<open>SyntaxError\<close>, or an object, of which only the three properties the module reads
  are kept. The empty text is not JSON; the module skips it before parsing
  (\<open>if (stored)\<close>), with the same outcome. JSON texts that denote something other than
  an object are not modelled.
\<close>

datatype storedText = NotJSON | JSONObject statsObject

text \<open>
  \<open>JSON.stringify\<close> writes \<open>NaN\<close> as \<open>null\<close> and leaves out a property that is
  \<open>undefined\<close>, which then reads back as \<open>undefined\<close>.
\<close>

fun jsonValue :: "jsValue \<Rightarrow> jsValue" where
  "jsonValue NaN = Null"
| "jsonValue v = v"

definition JSON_stringify :: "statsObject \<Rightarrow> storedText" where
  "JSON_stringify s =
    JSONObject \<lparr>itemsScanned = jsonValue (itemsScanned s),
                ordersCompleted = jsonValue (ordersCompleted s),
                totalRevenue = jsonValue (totalRevenue s)\<rparr>"

fun JSON_parse :: "storedText \<Rightarrow> error + statsObject" where
  "JSON_parse NotJSON = Inl (SyntaxError ''Unexpected token'')"
| "JSON_parse (JSONObject v) = Inr v"

text \<open>
  \<open>localStorage\<close>: the stored texts by key, and whether the host lets the page read
  and write (\<open>getItem\<close> and \<open>setItem\<close> throw when storage is denied or full).
\<close>

record localStorage =
  entries :: "string \<rightharpoonup> storedText"
  getItemThrows :: bool
  setItemThrows :: bool

definition STORAGE_KEY :: string where
  "STORAGE_KEY = ''pos_stats''"

text \<open>The module's private \<open>stats\<close> variable, with the storage it persists to.\<close>

record statsModule =
  stats :: statsObject
  storage :: localStorage

text \<open>The module as a fresh page load creates it, over the storage that is there.\<close>

definition stats_boot :: "localStorage \<Rightarrow> statsModule" where
  "stats_boot st = \<lparr>stats = stats_zero, storage = st\<rparr>"

text \<open>\<open>loadStats\<close>: every exception is caught and logged, leaving \<open>stats\<close> as it was.\<close>

definition loadStats :: "statsModule \<Rightarrow> statsModule" where
  "loadStats m =
    (if getItemThrows (storage m) then m
     else case entries (storage m) STORAGE_KEY of
       None \<Rightarrow> m
     | Some stored \<Rightarrow>
        (case JSON_parse stored of
           Inl e \<Rightarrow> m
         | Inr parsed \<Rightarrow> m\<lparr>stats := parsed\<rparr>))"

text \<open>\<open>saveStats\<close>: a failing \<open>setItem\<close> is caught and logged.\<close>

definition saveStats :: "statsModule \<Rightarrow> statsModule" where
  "saveStats m =
    (if setItemThrows (storage m) then m
     else m\<lparr>storage := (storage m)\<lparr>entries :=
            (entries (storage m))(STORAGE_KEY \<mapsto> JSON_stringify (stats m))\<rparr>\<rparr>)"

text \<open>
  \<open>updateDisplay\<close> writes three text nodes; the only thing that can go wrong with the
  elements in place is \<open>stats.totalRevenue.toLocaleString()\<close> on \<open>undefined\<close> or
  \<open>null\<close>. The result is the exception thrown, if any.
\<close>

definition updateDisplay :: "statsModule \<Rightarrow> error option" where
  "updateDisplay m =
    (case totalRevenue (stats m) of
       Undefined \<Rightarrow> Some (TypeError ''Cannot read properties of undefined (reading 'toLocaleString')'')
     | Null \<Rightarrow> Some (TypeError ''Cannot read properties of null (reading 'toLocaleString')'')
     | _ \<Rightarrow> None)"

text \<open>
  The public operations. Each returns the exception it throws, if any, and the module
  state it leaves; a mutation and its save are done before \<open>updateDisplay\<close> is called.
\<close>

definition init :: "statsModule \<Rightarrow> error option \<times> statsModule" where
  "init m = (let m' = loadStats m in (updateDisplay m', m'))"

definition incrementItemsScanned :: "statsModule \<Rightarrow> int \<Rightarrow> error option \<times> statsModule" where
  "incrementItemsScanned m count =
    (let m' = saveStats (m\<lparr>stats := (stats m)\<lparr>itemsScanned := jsAdd (itemsScanned (stats m)) count\<rparr>\<rparr>)
     in (updateDisplay m', m'))"

definition incrementOrders :: "statsModule \<Rightarrow> error option \<times> statsModule" where
  "incrementOrders m =
    (let m' = saveStats (m\<lparr>stats := (stats m)\<lparr>ordersCompleted := jsAdd (ordersCompleted (stats m)) 1\<rparr>\<rparr>)
     in (updateDisplay m', m'))"

definition addRevenue :: "statsModule \<Rightarrow> int \<Rightarrow> error option \<times> statsModule" where
  "addRevenue m amount =
    (let m' = saveStats (m\<lparr>stats := (stats m)\<lparr>totalRevenue := jsAdd (totalRevenue (stats m)) amount\<rparr>\<rparr>)
     in (updateDisplay m', m'))"

definition getStats :: "statsModule \<Rightarrow> statsObject" where
  "getStats m = stats m"

definition resetStats :: "statsModule \<Rightarrow> error option \<times> statsModule" where
  "resetStats m = (let m' = saveStats (m\<lparr>stats := stats_zero\<rparr>) in (updateDisplay m', m'))"

datatype statsOp =
  Init
  | IncrementItemsScanned int
  | IncrementOrders
  | AddRevenue int
  | UpdateDisplay
  | GetStats
  | ResetStats

fun stats_apply :: "statsModule \<Rightarrow> statsOp \<Rightarrow> statsModule" where
  "stats_apply m Init = snd (init m)"
| "stats_apply m (IncrementItemsScanned count) = snd (incrementItemsScanned m count)"
| "stats_apply m IncrementOrders = snd (incrementOrders m)"
| "stats_apply m (AddRevenue amount) = snd (addRevenue m amount)"
| "stats_apply m UpdateDisplay = m"
| "stats_apply m GetStats = m"
| "stats_apply m ResetStats = snd (resetStats m)"

definition stats_run :: "statsModule \<Rightarrow> statsOp list \<Rightarrow> statsModule" where
  "stats_run m ops = foldl stats_apply m ops"

text \<open>A stats object whose three counters are numbers.\<close>

fun isNumber :: "jsValue \<Rightarrow> bool" where
  "isNumber (Number n) = True"
| "isNumber v = False"

definition numeric :: "statsObject \<Rightarrow> bool" where
  "numeric s = (isNumber (itemsScanned s) \<and> isNumber (ordersCompleted s) \<and> isNumber (totalRevenue s))"

text \<open>
  Storage that works and holds, under the module's key, nothing, a text that is not
  JSON, or a record of three numbers (what the module itself writes).
\<close>

definition storage_sound :: "localStorage \<Rightarrow> bool" where
  "storage_sound st =
    (\<not> getItemThrows st \<and> \<not> setItemThrows st \<and>
     (case entries st STORAGE_KEY of
        None \<Rightarrow> True
      | Some NotJSON \<Rightarrow> True
      | Some (JSONObject v) \<Rightarrow> numeric v))"

text \<open>
  A load failure: reading throws, the key is absent, or the text is not JSON.
\<close>

definition load_fails :: "localStorage \<Rightarrow> bool" where
  "load_fails st =
    (getItemThrows st \<or> entries st STORAGE_KEY = None \<or> entries st STORAGE_KEY = Some NotJSON)"

text \<open>The invariant of a module running on sound storage.\<close>

definition stats_inv :: "statsModule \<Rightarrow> bool" where
  "stats_inv m = (numeric (stats m) \<and> storage_sound (storage m))"

text \<open>The operations that change the counters; each of them saves.\<close>

fun mutating :: "statsOp \<Rightarrow> bool" where
  "mutating (IncrementItemsScanned count) = True"
| "mutating IncrementOrders = True"
| "mutating (AddRevenue amount) = True"
| "mutating ResetStats = True"
| "mutating op = False"

text \<open>Working storage with nothing stored.\<close>

definition storage_empty :: localStorage where
  "storage_empty = \<lparr>entries = Map.empty, getItemThrows = False, setItemThrows = False\<rparr>"

text \<open>
  Working storage whose entry is the JSON text \<open>{"itemsScanned":5}\<close>: an object, but
  not a complete record.
\<close>

definition storage_partial :: localStorage where
  "storage_partial =
    \<lparr>entries = [STORAGE_KEY \<mapsto>
        JSONObject \<lparr>itemsScanned = Number 5, ordersCompleted = Undefined, totalRevenue = Undefined\<rparr>],
     getItemThrows = False, setItemThrows = False\<rparr>"

text \<open>
  Working storage whose entry is the JSON text \<open>{"itemsScanned":5,"totalRevenue":7}\<close>:
  an object without \<open>ordersCompleted\<close>.
\<close>

definition storage_no_orders :: localStorage where
  "storage_no_orders =
    \<lparr>entries = [STORAGE_KEY \<mapsto>
        JSONObject \<lparr>itemsScanned = Number 5, ordersCompleted = Undefined, totalRevenue = Number 7\<rparr>],
     getItemThrows = False, setItemThrows = False\<rparr>"

section \<open>Export module (js/export.js)\<close>

text \<open>Decimal digits of a natural number, as template strings print it.\<close>

fun showNat :: "nat \<Rightarrow> string" where
  "showNat n =
    (if n < 10 then [''0123456789'' ! n]
     else showNat (n div 10) @ [''0123456789'' ! (n mod 10)])"

text \<open>
  What the host supplies to an export: \<open>Date.now()\<close>, the six characters taken from
  \<open>Math.random().toString(36)\<close>, \<open>new Date().toISOString()\<close>, and whether building
  and clicking the download link throws (with the exception's message).
\<close>

record exportHost =
  dateNow :: nat
  randomSuffix :: string
  isoString :: string
  downloadThrows :: "string option"

record orderExport =
  export_orderId :: string
  export_timestamp :: string
  export_items :: "cartItem list"
  export_total :: int
  export_itemsCount :: nat

text \<open>
  The result object: \<open>{success: true, orderId, filename}\<close> or
  \<open>{success: false, error}\<close>.
\<close>

datatype exportResult = Exported string string | ExportFailed string

fun success :: "exportResult \<Rightarrow> bool" where
  "success (Exported orderId filename) = True"
| "success (ExportFailed message) = False"

text \<open>The files the page has offered for download, by name, oldest first.\<close>

type_synonym downloads = "(string \<times> orderExport) list"

definition generateOrderId :: "exportHost \<Rightarrow> string" where
  "generateOrderId h = ''order_'' @ showNat (dateNow h) @ ''_'' @ randomSuffix h"

text \<open>\<open>downloadJSON(data, filename)\<close>: throws, or offers the file and returns its name.\<close>

definition downloadJSON ::
  "exportHost \<Rightarrow> downloads \<Rightarrow> orderExport \<Rightarrow> string \<Rightarrow> string + (string \<times> downloads)" where
  "downloadJSON h files data filename =
    (case downloadThrows h of
       Some message \<Rightarrow> Inl message
     | None \<Rightarrow> Inr (filename, files @ [(filename, data)]))"

definition exportOrder ::
  "exportHost \<Rightarrow> downloads \<Rightarrow> orderData \<Rightarrow> exportResult \<times> downloads" where
  "exportOrder h files orderData =
    (let orderId = generateOrderId h;
         exportData = \<lparr>export_orderId = orderId, export_timestamp = isoString h,
                       export_items = order_items orderData,
                       export_total = order_total orderData,
                       export_itemsCount = order_itemsCount orderData\<rparr>
     in case downloadJSON h files exportData (''order_'' @ orderId @ ''.json'') of
          Inr (filename, files') \<Rightarrow> (Exported orderId filename, files')
        | Inl message \<Rightarrow> (ExportFailed message, files))"

definition exportCurrentCart ::
  "exportHost \<Rightarrow> downloads \<Rightarrow> cart \<Rightarrow> exportResult \<times> downloads" where
  "exportCurrentCart h files c =
    (let orderData = getOrderData c
     in if length (order_items orderData) = 0 then (ExportFailed ''Cart is empty'', files)
        else exportOrder h files orderData)"

section \<open>Application coordinator (js/app.js)\<close>

text \<open>
  The modules the order-completion handler touches, and the coordinator's own
  \<open>continuousScanActive\<close> and \<open>currentDetections\<close>. Canvas and page updates are left
  out.
\<close>

record app =
  app_cart :: cart
  app_stats :: statsModule
  app_files :: downloads
  app_detection :: "string poller"
  continuousScanActive :: bool
  currentDetections :: "detection list"

definition stopContinuousScan :: "app \<Rightarrow> app" where
  "stopContinuousScan a =
    (if \<not> continuousScanActive a then a
     else a\<lparr>continuousScanActive := False,
            app_detection := stopContinuousDetection (app_detection a)\<rparr>)"

text \<open>
  The click handler of the complete-order button. \<open>confirmComplete\<close> is the answer to
  the confirmation dialog. The result is the exception that leaves the handler, if any,
  and the state it leaves. An exception thrown by a Stats call skips the rest of the
  handler.
\<close>

definition completeOrder :: "app \<Rightarrow> exportHost \<Rightarrow> bool \<Rightarrow> error option \<times> app" where
  "completeOrder a h confirmComplete =
    (let orderData = getOrderData (app_cart a)
     in if length (order_items orderData) = 0 then (None, a)
        else if \<not> confirmComplete then (None, a)
        else
          (let a1 = (if continuousScanActive a then stopContinuousScan a else a);
               (exportResult, files') = exportOrder h (app_files a1) orderData;
               a2 = a1\<lparr>app_files := files'\<rparr>
           in if success exportResult
              then (case incrementOrders (app_stats a2) of
                      (Some e, s1) \<Rightarrow> (Some e, a2\<lparr>app_stats := s1\<rparr>)
                    | (None, s1) \<Rightarrow>
                       (case addRevenue s1 (order_total orderData) of
                          (Some e, s2) \<Rightarrow> (Some e, a2\<lparr>app_stats := s2\<rparr>)
                        | (None, s2) \<Rightarrow>
                            (None, a2\<lparr>app_stats := s2, app_cart := clearCart (app_cart a2),
                                       currentDetections := []\<rparr>)))
              else (None, a2)))"

text \<open>
  \<open>addDetectedToCart(detectionIndex)\<close>: adds the product of a current detection and
  counts it; an index without a detection does nothing.
\<close>

definition addDetectedToCart :: "app \<Rightarrow> nat \<Rightarrow> string \<Rightarrow> error option \<times> app" where
  "addDetectedToCart a detectionIndex now =
    (if detectionIndex < length (currentDetections a)
     then (let d = currentDetections a ! detectionIndex;
               c' = snd (addItem (app_cart a) (det_product d) (Some (det_confidence d)) now);
               (thrown, s') = incrementItemsScanned (app_stats a) 1
           in (thrown, a\<lparr>app_cart := c', app_stats := s'\<rparr>))
     else (None, a))"

text \<open>A page with two coffees and a water in the cart, and nothing else done yet.\<close>

definition coffee :: product where
  "coffee = PRODUCTS ! 0"

definition water :: product where
  "water = PRODUCTS ! 1"

definition cart_230 :: cart where
  "cart_230 =
    cart_run cart_init
      [AddItem coffee (Some 0.82) ''2026-01-01T10:00:00.000Z'',
       AddItem water (Some 0.9) ''2026-01-01T10:00:05.000Z'',
       AddItem coffee None ''2026-01-01T10:00:09.000Z'']"

definition host_ok :: exportHost where
  "host_ok =
    \<lparr>dateNow = 1767261610000, randomSuffix = ''k3x9qa'',
     isoString = ''2026-01-01T10:00:10.000Z'', downloadThrows = None\<rparr>"

definition app_230 :: app where
  "app_230 =
    \<lparr>app_cart = cart_230, app_stats = stats_boot storage_empty, app_files = [],
     app_detection = poller_ready, continuousScanActive = False, currentDetections = []\<rparr>"

text \<open>The same page when Stats was initialised on the storage without \<open>ordersCompleted\<close>.\<close>

definition app_no_orders :: app where
  "app_no_orders = app_230\<lparr>app_stats := snd (init (stats_boot storage_no_orders))\<rparr>"

text \<open>A product with a negative price, and a page with only that product in the cart.\<close>

definition refund :: product where
  "refund =
    \<lparr>product_id = 9, product_nameAr = [], product_nameEn = ''Refund'', product_price = - 50,
     product_modelClass = ''refund''\<rparr>"

definition app_refund :: app where
  "app_refund =
    app_230\<lparr>app_cart := cart_run cart_init [AddItem refund None ''2026-01-01T10:00:00.000Z'']\<rparr>"

section \<open>Properties of the cart\<close>

lemma foldl_price_sum:
  "foldl (\<lambda>sum item. sum + item_price item) a xs = a + sum_list (map item_price xs)"
  by (induction xs arbitrary: a) simp_all

lemma getTotal_sum_list: "getTotal c = sum_list (map item_price (items c))"
  by (simp add: getTotal_def foldl_price_sum)

lemma items_addItem: "items (snd (addItem c p cf t)) = items c @ [fst (addItem c p cf t)]"
  by (simp add: addItem_def Let_def)

lemma id_addItem: "item_id (fst (addItem c p cf t)) = Suc (itemIdCounter c)"
  by (simp add: addItem_def Let_def)

lemma counter_addItem: "itemIdCounter (snd (addItem c p cf t)) = Suc (itemIdCounter c)"
  by (simp add: addItem_def Let_def)

lemma findIndex_None: "findIndex P xs = None \<longleftrightarrow> (\<forall>x\<in>set xs. \<not> P x)"
  by (induction xs) auto

lemma findIndex_Some:
  "findIndex P xs = Some i \<Longrightarrow> i < length xs \<and> P (xs ! i) \<and> (\<forall>j<i. \<not> P (xs ! j))"
proof (induction xs arbitrary: i)
  case Nil
  then show ?case by simp
next
  case (Cons x xs)
  show ?case
  proof (cases "P x")
    case True
    with Cons.prems show ?thesis by simp
  next
    case False
    with Cons.prems obtain k where k: "findIndex P xs = Some k" "i = Suc k"
      by auto
    from Cons.IH[OF k(1)] False k(2) show ?thesis
      by (auto simp: less_Suc_eq_0_disj)
  qed
qed

lemma set_splice1: "set (splice1 i xs) \<subseteq> set xs"
  unfolding splice1_def by (auto dest: in_set_takeD in_set_dropD)

lemma length_splice1: "i < length xs \<Longrightarrow> Suc (length (splice1 i xs)) = length xs"
  unfolding splice1_def by auto

lemma counter_removeItem: "itemIdCounter (removeItem c i) = itemIdCounter c"
  by (simp add: removeItem_def split: option.splits)

lemma set_items_removeItem: "set (items (removeItem c i)) \<subseteq> set (items c)"
  using set_splice1 by (fastforce simp add: removeItem_def split: option.splits)

lemma ids_bounded_apply: "ids_bounded c \<Longrightarrow> ids_bounded (cart_apply c op)"
proof (cases op)
  case (AddItem p cf t)
  assume "ids_bounded c"
  then show ?thesis
    by (auto simp: AddItem ids_bounded_def list_all_iff items_addItem id_addItem counter_addItem)
next
  case (RemoveItem i)
  assume "ids_bounded c"
  then show ?thesis using set_items_removeItem[of c i]
    by (auto simp: RemoveItem ids_bounded_def list_all_iff counter_removeItem)
next
  case ClearCart
  then show ?thesis by (simp add: ids_bounded_def clearCart_def)
qed

lemma issued_ids_above:
  "x \<in> set (issued_ids c ops) \<Longrightarrow> itemIdCounter c < x"
proof (induction c ops rule: issued_ids.induct)
  case (1 c)
  then show ?case by simp
next
  case (2 c p cf t ops)
  then show ?case by (auto simp: id_addItem counter_addItem)
next
  case (3 c i ops)
  then show ?case by (simp add: counter_removeItem)
next
  case (4 c ops)
  then show ?case by (simp add: clearCart_def)
qed

lemma issued_ids_increasing: "sorted_wrt (<) (issued_ids c ops)"
proof (induction c ops rule: issued_ids.induct)
  case (2 c p cf t ops)
  then show ?case
    using issued_ids_above[of _ "snd (addItem c p cf t)" ops]
    by (auto simp: id_addItem counter_addItem)
qed simp_all

lemma findIndex_filter:
  "distinct (map f xs) \<Longrightarrow>
   (case findIndex (\<lambda>x. f x = i) xs of None \<Rightarrow> xs | Some k \<Rightarrow> splice1 k xs)
     = filter (\<lambda>x. f x \<noteq> i) xs"
proof (induction xs)
  case Nil
  then show ?case by simp
next
  case (Cons x xs)
  show ?case
  proof (cases "f x = i")
    case True
    with Cons.prems have "\<forall>y\<in>set xs. f y \<noteq> i" by (auto simp: image_iff dest: sym)
    then have "filter (\<lambda>x. f x \<noteq> i) xs = xs" by (simp add: filter_id_conv)
    with True show ?thesis by (simp add: splice1_def)
  next
    case False
    with Cons show ?thesis
      by (auto simp: splice1_def split: option.splits)
  qed
qed

lemma items_removeItem_filter:
  "distinct (map item_id (items c)) \<Longrightarrow>
   items (removeItem c i) = filter (\<lambda>item. item_id item \<noteq> i) (items c)"
  using findIndex_filter[of item_id "items c" i]
  by (simp add: removeItem_def split: option.splits)

lemma distinct_ids_apply:
  assumes "ids_bounded c" "distinct (map item_id (items c))"
  shows "distinct (map item_id (items (cart_apply c op)))"
proof (cases op)
  case (AddItem p cf t)
  with assms show ?thesis
    by (auto simp: ids_bounded_def list_all_iff items_addItem id_addItem)
next
  case (RemoveItem i)
  with assms show ?thesis
    by (simp add: items_removeItem_filter distinct_map_filter)
next
  case ClearCart
  then show ?thesis by (simp add: clearCart_def)
qed

lemma cart_run_inv:
  "ids_bounded c \<Longrightarrow> distinct (map item_id (items c)) \<Longrightarrow>
   ids_bounded (cart_run c ops) \<and> distinct (map item_id (items (cart_run c ops)))"
  unfolding cart_run_def
  by (induction ops arbitrary: c) (simp_all add: ids_bounded_apply distinct_ids_apply)

lemma cart_init_inv: "ids_bounded cart_init \<and> distinct (map item_id (items cart_init))"
  by (simp add: ids_bounded_def cart_init_def)

lemma distinct_count_le1: "distinct (map f xs) \<Longrightarrow> length (filter (\<lambda>x. f x = i) xs) \<le> 1"
  by (induction xs) (auto simp: filter_empty_conv image_iff dest: sym)

lemma length_removeItem:
  "length (items c) \<le> Suc (length (items (removeItem c i)))"
  by (auto simp: removeItem_def split: option.splits dest!: findIndex_Some dest: length_splice1)

lemma counter_mono: "itemIdCounter c \<le> itemIdCounter (cart_apply c op)"
  by (cases op) (simp_all add: counter_addItem counter_removeItem clearCart_def)

lemma cart_ids_issued:
  "set (map item_id (items (cart_run c ops))) \<subseteq> set (map item_id (items c)) \<union> set (issued_ids c ops)"
proof (induction c ops rule: issued_ids.induct)
  case (1 c)
  then show ?case by (simp add: cart_run_def)
next
  case (2 c p cf t ops)
  then show ?case by (auto simp: cart_run_def items_addItem)
next
  case (3 c i ops)
  then show ?case using set_items_removeItem[of c i] by (auto simp: cart_run_def)
next
  case (4 c ops)
  then show ?case by (auto simp: cart_run_def clearCart_def)
qed

lemma getTotal_addItem: "getTotal (snd (addItem c p cf t)) = getTotal c + product_price p"
  by (simp add: getTotal_sum_list addItem_def Let_def)

lemma getTotal_clearCart: "getTotal (clearCart c) = 0"
  by (simp add: getTotal_def clearCart_def)

lemma sum_list_splice1:
  "i < length xs \<Longrightarrow> sum_list (map f (splice1 i xs)) = sum_list (map f xs) - (f (xs ! i) :: int)"
proof -
  assume "i < length xs"
  then have "xs = take i xs @ xs ! i # drop (Suc i) xs"
    by (rule id_take_nth_drop)
  then have "sum_list (map f xs) = sum_list (map f (take i xs @ xs ! i # drop (Suc i) xs))"
    by simp
  then show ?thesis
    by (simp add: splice1_def)
qed

lemma getTotal_removeItem:
  "getTotal (removeItem c itemId) =
    (case findIndex (\<lambda>item. item_id item = itemId) (items c) of
       None \<Rightarrow> getTotal c
     | Some i \<Rightarrow> getTotal c - item_price (items c ! i))"
  by (auto simp: getTotal_sum_list removeItem_def sum_list_splice1
      split: option.splits dest: findIndex_Some)

text \<open>
  Claim C4. After any sequence of \<open>addItem\<close>, \<open>removeItem\<close> and \<open>clearCart\<close> calls,
  in any order and number, \<open>getTotal()\<close> is the sum of the prices of the items that are
  in the cart at that moment. The module keeps no cached total: \<open>getTotal\<close> folds over
  the current \<open>items\<close> array, so the invariant holds after every operation.
\<close>

theorem cart_total_is_sum:
  "getTotal (cart_run cart_init ops)
     = sum_list (map item_price (getItems (cart_run cart_init ops)))"
  by (simp add: getTotal_sum_list getItems_def)

text \<open>
  Claim C10. Over any run of cart operations from the module's initial state: the ids
  returned by \<open>addItem\<close> are strictly increasing in call order (so each is greater than
  every id issued before, also across \<open>removeItem\<close> and \<open>clearCart\<close>, which is what
  order completion calls); every id in the cart was issued by such a call; the ids in the
  cart are pairwise distinct, so at most one item carries a given id; \<open>removeItem\<close>
  removes exactly the items with that id, hence at most one; and no operation lowers the
  counter.
\<close>

theorem cart_ids_fresh:
  "sorted_wrt (<) (issued_ids cart_init ops)
   \<and> set (map item_id (items (cart_run cart_init ops))) \<subseteq> set (issued_ids cart_init ops)
   \<and> distinct (map item_id (items (cart_run cart_init ops)))
   \<and> length (filter (\<lambda>item. item_id item = itemId) (items (cart_run cart_init ops))) \<le> 1
   \<and> items (removeItem (cart_run cart_init ops) itemId)
       = filter (\<lambda>item. item_id item \<noteq> itemId) (items (cart_run cart_init ops))
   \<and> length (items (cart_run cart_init ops))
       \<le> Suc (length (items (removeItem (cart_run cart_init ops) itemId)))
   \<and> itemIdCounter (cart_run cart_init ops) \<le> itemIdCounter (cart_apply (cart_run cart_init ops) op)"
proof -
  have d: "distinct (map item_id (items (cart_run cart_init ops)))"
    using cart_run_inv cart_init_inv by blast
  have s: "set (map item_id (items (cart_run cart_init ops))) \<subseteq> set (issued_ids cart_init ops)"
    using cart_ids_issued[of cart_init ops] by (simp add: cart_init_def)
  show ?thesis
    using d s issued_ids_increasing distinct_count_le1[OF d] items_removeItem_filter[OF d]
      length_removeItem counter_mono
    by blast
qed

section \<open>Properties of detectObjects\<close>

lemma mapClassToProduct_None: "mapClassToProduct label = None \<longleftrightarrow> \<not> matchesCatalog label"
  by (auto simp: mapClassToProduct_def matchesCatalog_def find_None_iff)

lemma mapClassToProduct_Some:
  "mapClassToProduct label = Some p \<Longrightarrow>
   p \<in> set PRODUCTS \<and> toLowerCase (trim (product_modelClass p)) = toLowerCase (trim label)"
  by (auto simp: mapClassToProduct_def find_Some_iff)

lemma maxLoop_spec:
  "maxLoop ps i m j = (c, k) \<Longrightarrow>
   m \<le> c \<and> (\<forall>p\<in>set ps. p \<le> c) \<and>
   (if \<exists>p\<in>set ps. m < p
    then i \<le> k \<and> k - i < length ps \<and> ps ! (k - i) = c \<and> (\<forall>n < k - i. ps ! n < c)
    else c = m \<and> k = j)"
proof (induction ps arbitrary: i m j)
  case Nil
  then show ?case by simp
next
  case (Cons p ps)
  show ?case
  proof (cases "m < p")
    case True
    with Cons.prems have r: "maxLoop ps (Suc i) p i = (c, k)" by simp
    note ih = Cons.IH[OF r]
    show ?thesis
    proof (cases "\<exists>q\<in>set ps. p < q")
      case e: True
      with ih have k: "Suc i \<le> k" "k - Suc i < length ps" "ps ! (k - Suc i) = c"
        "\<forall>n < k - Suc i. ps ! n < c" by simp_all
      from k(1) have d: "k - i = Suc (k - Suc i)" by simp
      from e ih have pc: "p < c" by force
      have "\<forall>n < k - i. (p # ps) ! n < c"
        using k(4) pc d by (auto simp: nth_Cons split: nat.splits)
      with ih k d True show ?thesis by auto
    next
      case False
      with ih have "c = p" "k = i" by simp_all
      with ih True show ?thesis by auto
    qed
  next
    case False
    with Cons.prems have r: "maxLoop ps (Suc i) m j = (c, k)" by simp
    note ih = Cons.IH[OF r]
    show ?thesis
    proof (cases "\<exists>q\<in>set ps. m < q")
      case e: True
      with ih have k: "Suc i \<le> k" "k - Suc i < length ps" "ps ! (k - Suc i) = c"
        "\<forall>n < k - Suc i. ps ! n < c" by simp_all
      from k(1) have d: "k - i = Suc (k - Suc i)" by simp
      from e ih False have pc: "p < c" by force
      have "\<forall>n < k - i. (p # ps) ! n < c"
        using k(4) pc d by (auto simp: nth_Cons split: nat.splits)
      with ih k d e False show ?thesis by auto
    next
      case n: False
      with ih have "c = m" "k = j" by simp_all
      with ih n False show ?thesis by auto
    qed
  qed
qed

text \<open>
  The loop returns the largest probability, or \<open>0\<close> when none is positive, and the
  first index that holds it.
\<close>

lemma winner_first_maximum:
  "0 \<le> winningConfidence ps
   \<and> list_all (\<lambda>p. p \<le> winningConfidence ps) ps
   \<and> (if list_ex (\<lambda>p. 0 < p) ps
       then snd (winner ps) < length ps
            \<and> ps ! snd (winner ps) = winningConfidence ps
            \<and> list_all (\<lambda>p. p < winningConfidence ps) (take (snd (winner ps)) ps)
       else winningConfidence ps = 0 \<and> snd (winner ps) = 0)"
proof -
  obtain c k where w: "maxLoop ps 0 0 0 = (c, k)" by (cases "maxLoop ps 0 0 0")
  note s = maxLoop_spec[OF w]
  have t: "(\<forall>n<k. ps ! n < c) \<Longrightarrow> k < length ps \<Longrightarrow> list_all (\<lambda>p. p < c) (take k ps)"
    by (auto simp: list_all_iff in_set_conv_nth)
  from s t show ?thesis
    by (auto simp: winningConfidence_def winner_def w list_all_iff list_ex_iff split: if_splits)
qed

lemma detectObjects_content:
  assumes "detectObjects s videoElement inference = Inr ds" and "d \<in> set ds"
  shows "ds = [d] \<and> det_product d \<in> set PRODUCTS
       \<and> mapClassToProduct (det_className d) = Some (det_product d)
       \<and> MIN_CONFIDENCE \<le> det_confidence d \<and> det_className d \<noteq> ''empty''
       \<and> (\<exists>ps v. inference = Some ps \<and> videoElement = Some v
             \<and> det_confidence d = winningConfidence ps \<and> det_className d = winningLabel ps
             \<and> det_boundingBox d = centredBox v)"
  using assms
  by (auto simp: detectObjects_def Let_def not_less
      split: if_splits option.splits dest: mapClassToProduct_Some)

lemma catalog_price_positive: "p \<in> set PRODUCTS \<Longrightarrow> 0 < product_price p"
  by (auto simp: PRODUCTS_def)

lemma firstMaximum_unique:
  assumes "firstMaximum ps k" and "firstMaximum ps j"
  shows "k = j"
proof (rule ccontr)
  assume n: "k \<noteq> j"
  from assms have kl: "k < length ps" and jl: "j < length ps"
    by (simp_all add: firstMaximum_def)
  from assms have le: "ps ! j \<le> ps ! k" "ps ! k \<le> ps ! j"
    using kl jl by (auto simp: firstMaximum_def list_all_iff)
  show False
  proof (cases "k < j")
    case True
    then have "ps ! k \<in> set (take j ps)"
      using jl by (auto simp: in_set_conv_nth intro!: exI[of _ k])
    with assms(2) have "ps ! k < ps ! j" by (simp add: firstMaximum_def list_all_iff)
    with le show False by simp
  next
    case False
    with n have "j < k" by simp
    then have "ps ! j \<in> set (take k ps)"
      using kl by (auto simp: in_set_conv_nth intro!: exI[of _ j])
    with assms(1) have "ps ! j < ps ! k" by (simp add: firstMaximum_def list_all_iff)
    with le show False by simp
  qed
qed

lemma winner_firstMaximum:
  assumes "\<exists>p\<in>set ps. 0 < p"
  shows "firstMaximum ps (snd (winner ps)) \<and> ps ! snd (winner ps) = winningConfidence ps"
proof -
  obtain c k where w: "maxLoop ps 0 0 0 = (c, k)" by (cases "maxLoop ps 0 0 0")
  from maxLoop_spec[OF w] assms
  have a: "\<forall>p\<in>set ps. p \<le> c" and k: "k < length ps" "ps ! k = c" "\<forall>n<k. ps ! n < c"
    by simp_all
  have "list_all (\<lambda>p. p < ps ! k) (take k ps)"
    using k by (auto simp: list_all_iff in_set_conv_nth)
  with a k show ?thesis
    by (simp add: firstMaximum_def winner_def winningConfidence_def w list_all_iff)
qed

lemma firstMaximum_positive_winner:
  assumes "firstMaximum ps k" and "0 < ps ! k"
  shows "snd (winner ps) = k \<and> winningConfidence ps = ps ! k"
proof -
  from assms have "\<exists>p\<in>set ps. 0 < p"
    by (auto simp: firstMaximum_def)
  from winner_firstMaximum[OF this] firstMaximum_unique[OF assms(1)] show ?thesis
    by auto
qed

lemma winningConfidence_Max: "winningConfidence ps = Max (insert 0 (set ps))"
proof -
  obtain c k where w: "maxLoop ps 0 0 0 = (c, k)" by (cases "maxLoop ps 0 0 0")
  note s = maxLoop_spec[OF w]
  have m: "c \<in> insert 0 (set ps)"
  proof (cases "\<exists>p\<in>set ps. 0 < p")
    case True
    with s have "k < length ps" "ps ! k = c" by simp_all
    then show ?thesis by auto
  next
    case False
    with s show ?thesis by simp
  qed
  have "Max (insert 0 (set ps)) = c"
    using s m by (intro Max_eqI) auto
  then show ?thesis
    by (simp add: winningConfidence_def winner_def w)
qed

lemma classNameAt_product:
  "(classNameAt k \<noteq> ''empty'' \<and> matchesCatalog (classNameAt k)) \<longleftrightarrow> k < 2"
proof -
  have m: "matchesCatalog ''caffee''" "matchesCatalog ''water''"
    "\<not> matchesCatalog ''unknown''"
    by (simp_all add: matchesCatalog_def PRODUCTS_def toLowerCase_def toLowerCaseChar_def
        trim_def isWhiteSpace_def)
  consider "k = 0" | "k = 1" | "k = 2" | "3 \<le> k" by linarith
  then show ?thesis
    using m by cases (simp_all add: classNameAt_def classNames_def)
qed

lemma mapClassToProduct_names:
  "mapClassToProduct ''caffee'' = Some (PRODUCTS ! 0)"
  "mapClassToProduct ''water'' = Some (PRODUCTS ! 1)"
  by (simp_all add: mapClassToProduct_def PRODUCTS_def toLowerCase_def toLowerCaseChar_def
      trim_def isWhiteSpace_def)

lemma positive_from_confidence:
  assumes "0 < winningConfidence ps"
  shows "\<exists>p\<in>set ps. 0 < p"
proof (rule ccontr)
  assume "\<not> (\<exists>p\<in>set ps. 0 < p)"
  then have "\<forall>p\<in>set ps. p \<le> 0" by auto
  then have "Max (insert 0 (set ps)) = 0"
    by (intro Max_eqI) auto
  with assms show False by (simp add: winningConfidence_Max)
qed

lemma one_detection_iff_argmax:
  "(0.5 \<le> winningConfidence ps \<and> winningLabel ps \<noteq> ''empty'' \<and> matchesCatalog (winningLabel ps))
   \<longleftrightarrow> (\<exists>k. firstMaximum ps k \<and> 0.5 \<le> ps ! k \<and> k < 2)"
proof
  assume a: "0.5 \<le> winningConfidence ps \<and> winningLabel ps \<noteq> ''empty''
             \<and> matchesCatalog (winningLabel ps)"
  then have "0 < winningConfidence ps" by simp
  from winner_firstMaximum[OF positive_from_confidence[OF this]]
  have f: "firstMaximum ps (snd (winner ps))" "ps ! snd (winner ps) = winningConfidence ps"
    by simp_all
  from a have "snd (winner ps) < 2"
    using classNameAt_product[of "snd (winner ps)"] by (simp add: winningLabel_def)
  with f a show "\<exists>k. firstMaximum ps k \<and> 0.5 \<le> ps ! k \<and> k < 2"
    by auto
next
  assume "\<exists>k. firstMaximum ps k \<and> 0.5 \<le> ps ! k \<and> k < 2"
  then obtain k where k: "firstMaximum ps k" "0.5 \<le> ps ! k" "k < 2" by blast
  then have "0 < ps ! k" by simp
  from firstMaximum_positive_winner[OF k(1) this]
  have w: "snd (winner ps) = k" "winningConfidence ps = ps ! k" by simp_all
  with k classNameAt_product[of k]
  show "0.5 \<le> winningConfidence ps \<and> winningLabel ps \<noteq> ''empty''
        \<and> matchesCatalog (winningLabel ps)"
    by (simp add: winningLabel_def)
qed

lemma detection_of_argmax:
  assumes "detectObjects s (Some v) (Some ps) = Inr ds" and "length ds = 1"
    and "firstMaximum ps k" and "0.5 \<le> ps ! k" and "k < 2"
  shows "\<exists>d. ds = [d] \<and> det_confidence d = ps ! k
           \<and> det_className d = [''caffee'', ''water''] ! k
           \<and> product_id (det_product d) = k + 1
           \<and> product_nameEn (det_product d) = [''Coffee'', ''Water''] ! k
           \<and> product_price (det_product d) = [100, 30] ! k
           \<and> det_boundingBox d = centredBox v"
proof -
  from assms(2) obtain d where d: "ds = [d]"
    by (cases ds) auto
  from assms(4) have "0 < ps ! k" by simp
  from firstMaximum_positive_winner[OF assms(3) this]
  have w: "snd (winner ps) = k" "winningConfidence ps = ps ! k" by simp_all
  from detectObjects_content[OF assms(1), of d] d
  have c: "mapClassToProduct (det_className d) = Some (det_product d)"
    "det_confidence d = winningConfidence ps" "det_className d = winningLabel ps"
    "det_boundingBox d = centredBox v"
    by auto
  from assms(5) consider "k = 0" | "k = 1" by linarith
  then show ?thesis
  proof cases
    case 1
    with w c have "det_className d = ''caffee''"
      by (simp add: winningLabel_def classNameAt_def classNames_def)
    with c mapClassToProduct_names(1) have "det_product d = PRODUCTS ! 0" by simp
    with d c w 1 \<open>det_className d = ''caffee''\<close> show ?thesis
      by (simp add: PRODUCTS_def)
  next
    case 2
    with w c have "det_className d = ''water''"
      by (simp add: winningLabel_def classNameAt_def classNames_def)
    with c mapClassToProduct_names(2) have "det_product d = PRODUCTS ! 1" by simp
    with d c w 2 \<open>det_className d = ''water''\<close> show ?thesis
      by (simp add: PRODUCTS_def)
  qed
qed

lemma winningLabel_of_argmax:
  assumes "firstMaximum ps k" and "0 < ps ! k"
  shows "winningConfidence ps = ps ! k
       \<and> winningLabel ps = (if k < 3 then [''caffee'', ''water'', ''empty''] ! k else ''unknown'')"
  using firstMaximum_positive_winner[OF assms]
  by (simp add: winningLabel_def classNameAt_def classNames_def)

lemma detectObjects_threshold_rule:
  assumes "modelLoaded s" and "model s = Some m" and "2 \<le> readyState v"
  shows "\<exists>ds. detectObjects s (Some v) (Some probabilities) = Inr ds
          \<and> length ds \<le> 1
          \<and> (length ds = 1 \<longleftrightarrow>
               0.5 \<le> winningConfidence probabilities
               \<and> winningLabel probabilities \<noteq> ''empty''
               \<and> matchesCatalog (winningLabel probabilities))
          \<and> (ds = [] \<longleftrightarrow>
               \<not> (0.5 \<le> winningConfidence probabilities
                  \<and> winningLabel probabilities \<noteq> ''empty''
                  \<and> matchesCatalog (winningLabel probabilities)))
          \<and> (\<forall>d \<in> set ds.
                det_product d \<in> set PRODUCTS
                \<and> mapClassToProduct (winningLabel probabilities) = Some (det_product d)
                \<and> det_className d = winningLabel probabilities
                \<and> det_confidence d = winningConfidence probabilities)"
proof (cases "mapClassToProduct (winningLabel probabilities)")
  case None
  then have "\<not> matchesCatalog (winningLabel probabilities)"
    by (simp add: mapClassToProduct_None)
  with None assms show ?thesis
    by (simp add: detectObjects_def Let_def MIN_CONFIDENCE_def)
next
  case (Some p)
  then have "matchesCatalog (winningLabel probabilities)"
    using mapClassToProduct_None[of "winningLabel probabilities"] by simp
  with Some assms mapClassToProduct_Some[OF Some] show ?thesis
    by (simp add: detectObjects_def Let_def MIN_CONFIDENCE_def not_less)
qed

text \<open>
  Claim C1. With the model loaded, the frame decodable (\<open>readyState >= 2\<close>) and the
  classifier returning a probability vector, \<open>detectObjects\<close> resolves to a list of at
  most one detection, and to exactly one if and only if the winning confidence is at least
  \<open>0.5\<close>, the winning label is not \<open>empty\<close>, and the label, trimmed and
  case-folded, equals a catalog entry's; in every other case the list is empty. The
  winning confidence is the largest probability of the vector (\<open>0\<close> when none is
  positive), and the winning label is the class name, in the order \<open>caffee\<close>,
  \<open>water\<close>, \<open>empty\<close>, at the first index that holds it. So there is one detection
  exactly when the first maximum of the vector is at least \<open>0.5\<close> and stands at the
  coffee or the water index, and the detection then carries that probability, that class
  name and the catalog product of that class.
\<close>

theorem detectObjects_one_iff:
  assumes "modelLoaded s" and "model s = Some m" and "2 \<le> readyState v"
  shows "\<exists>ds. detectObjects s (Some v) (Some probabilities) = Inr ds
          \<and> length ds \<le> 1
          \<and> (length ds = 1 \<longleftrightarrow>
               0.5 \<le> winningConfidence probabilities
               \<and> winningLabel probabilities \<noteq> ''empty''
               \<and> matchesCatalog (winningLabel probabilities))
          \<and> (ds = [] \<longleftrightarrow>
               \<not> (0.5 \<le> winningConfidence probabilities
                  \<and> winningLabel probabilities \<noteq> ''empty''
                  \<and> matchesCatalog (winningLabel probabilities)))
          \<and> (\<forall>d \<in> set ds.
                det_product d \<in> set PRODUCTS
                \<and> mapClassToProduct (winningLabel probabilities) = Some (det_product d)
                \<and> det_className d = winningLabel probabilities
                \<and> det_confidence d = winningConfidence probabilities)
          \<and> winningConfidence probabilities = Max (insert 0 (set probabilities))
          \<and> (\<forall>k. firstMaximum probabilities k \<and> 0 < probabilities ! k \<longrightarrow>
                winningConfidence probabilities = probabilities ! k
                \<and> winningLabel probabilities
                    = (if k < 3 then [''caffee'', ''water'', ''empty''] ! k else ''unknown''))
          \<and> (length ds = 1 \<longleftrightarrow>
               (\<exists>k. firstMaximum probabilities k \<and> 0.5 \<le> probabilities ! k \<and> k < 2))
          \<and> (\<forall>k. firstMaximum probabilities k \<and> 0.5 \<le> probabilities ! k \<and> k < 2 \<longrightarrow>
                (\<exists>d. ds = [d] \<and> det_confidence d = probabilities ! k
                   \<and> det_className d = [''caffee'', ''water''] ! k
                   \<and> product_id (det_product d) = k + 1
                   \<and> product_nameEn (det_product d) = [''Coffee'', ''Water''] ! k
                   \<and> product_price (det_product d) = [100, 30] ! k
                   \<and> det_boundingBox d = centredBox v))"
proof -
  from detectObjects_threshold_rule[OF assms, of probabilities]
  obtain ds where r: "detectObjects s (Some v) (Some probabilities) = Inr ds"
    and l: "length ds \<le> 1"
    and o: "length ds = 1 \<longleftrightarrow>
               0.5 \<le> winningConfidence probabilities
               \<and> winningLabel probabilities \<noteq> ''empty''
               \<and> matchesCatalog (winningLabel probabilities)"
    and e: "ds = [] \<longleftrightarrow>
               \<not> (0.5 \<le> winningConfidence probabilities
                  \<and> winningLabel probabilities \<noteq> ''empty''
                  \<and> matchesCatalog (winningLabel probabilities))"
    and c: "\<forall>d \<in> set ds.
                det_product d \<in> set PRODUCTS
                \<and> mapClassToProduct (winningLabel probabilities) = Some (det_product d)
                \<and> det_className d = winningLabel probabilities
                \<and> det_confidence d = winningConfidence probabilities"
    by blast
  have a: "length ds = 1 \<longleftrightarrow>
            (\<exists>k. firstMaximum probabilities k \<and> 0.5 \<le> probabilities ! k \<and> k < 2)"
    using o one_detection_iff_argmax[of probabilities] by simp
  have d: "\<forall>k. firstMaximum probabilities k \<and> 0.5 \<le> probabilities ! k \<and> k < 2 \<longrightarrow>
                (\<exists>d. ds = [d] \<and> det_confidence d = probabilities ! k
                   \<and> det_className d = [''caffee'', ''water''] ! k
                   \<and> product_id (det_product d) = k + 1
                   \<and> product_nameEn (det_product d) = [''Coffee'', ''Water''] ! k
                   \<and> product_price (det_product d) = [100, 30] ! k
                   \<and> det_boundingBox d = centredBox v)"
  proof (intro allI impI)
    fix k
    assume k: "firstMaximum probabilities k \<and> 0.5 \<le> probabilities ! k \<and> k < 2"
    with a have "length ds = 1" by blast
    from detection_of_argmax[OF r this] k
    show "\<exists>d. ds = [d] \<and> det_confidence d = probabilities ! k
                   \<and> det_className d = [''caffee'', ''water''] ! k
                   \<and> product_id (det_product d) = k + 1
                   \<and> product_nameEn (det_product d) = [''Coffee'', ''Water''] ! k
                   \<and> product_price (det_product d) = [100, 30] ! k
                   \<and> det_boundingBox d = centredBox v"
      by blast
  qed
  have w: "\<forall>k. firstMaximum probabilities k \<and> 0 < probabilities ! k \<longrightarrow>
                winningConfidence probabilities = probabilities ! k
                \<and> winningLabel probabilities
                    = (if k < 3 then [''caffee'', ''water'', ''empty''] ! k else ''unknown'')"
    using winningLabel_of_argmax by blast
  show ?thesis
    using r l o e c winningConfidence_Max[of probabilities] w a d
    by (intro exI[of _ ds] conjI) 
qed

theorem detectObjects_one_iff_witness:
  "firstMaximum [0.82, 0.10, 0.08] 0
   \<and> (\<exists>d. detectObjects detection_loaded (Some frame_ready) (Some [0.82, 0.10, 0.08]) = Inr [d]
          \<and> det_confidence d = 0.82 \<and> det_className d = ''caffee''
          \<and> product_nameEn (det_product d) = ''Coffee'' \<and> product_price (det_product d) = 100)
   \<and> firstMaximum [0.10, 0.15, 0.75] 2
   \<and> detectObjects detection_loaded (Some frame_ready) (Some [0.10, 0.15, 0.75]) = Inr []"
proof -
  have l: "modelLoaded detection_loaded"
    "model detection_loaded = Some (LayersModel ''./model/model.json'')"
    "2 \<le> readyState frame_ready"
    by (simp_all add: detection_loaded_def frame_ready_def)
  have c: "firstMaximum [0.82, 0.10, 0.08] 0"
    by (simp add: firstMaximum_def)
  have e: "firstMaximum [0.10, 0.15, 0.75] 2"
    by (simp add: firstMaximum_def)
  from detectObjects_one_iff[OF l, of "[0.82, 0.10, 0.08]"] c
  have one: "\<exists>d. detectObjects detection_loaded (Some frame_ready) (Some [0.82, 0.10, 0.08]) = Inr [d]
          \<and> det_confidence d = 0.82 \<and> det_className d = ''caffee''
          \<and> product_nameEn (det_product d) = ''Coffee'' \<and> product_price (det_product d) = 100"
    by fastforce
  have n: "\<not> (\<exists>k. firstMaximum [0.10, 0.15, 0.75] k \<and> 0.5 \<le> [0.10, 0.15, 0.75] ! k \<and> k < 2)"
    using firstMaximum_unique[OF e] by fastforce
  from detectObjects_one_iff[OF l, of "[0.10, 0.15, 0.75]"] n
  have none: "detectObjects detection_loaded (Some frame_ready) (Some [0.10, 0.15, 0.75]) = Inr []"
    by (metis le_Suc_eq le_zero_eq length_0_conv One_nat_def)
  from c one e none show ?thesis
    by blast
qed

lemma loadModel_step_inv:
  "(modelLoaded s \<longrightarrow> model s \<noteq> None) \<Longrightarrow>
   (modelLoaded (loadModel_step s ev) \<longrightarrow> model (loadModel_step s ev) \<noteq> None)"
  by (cases ev) auto

lemma loadModel_foldl_inv:
  "(modelLoaded s \<longrightarrow> model s \<noteq> None) \<Longrightarrow>
   (modelLoaded (foldl loadModel_step s evs) \<longrightarrow> model (foldl loadModel_step s evs) \<noteq> None)"
proof (induction evs arbitrary: s)
  case Nil
  then show ?case by simp
next
  case (Cons ev evs)
  from Cons.IH[OF loadModel_step_inv[OF Cons.prems]] show ?case by simp
qed

lemma loaded_has_model:
  "modelLoaded (loadModel_run evs) \<Longrightarrow> model (loadModel_run evs) \<noteq> None"
  using loadModel_foldl_inv[of detection_init evs]
  by (simp add: loadModel_run_def detection_init_def)

lemma loaded_stays:
  "modelLoaded s \<Longrightarrow> modelLoaded (foldl loadModel_step s evs)"
proof (induction evs arbitrary: s)
  case (Cons ev evs)
  then show ?case by (cases ev) auto
qed simp

text \<open>
  Claim C6. In every state the module reaches through \<open>loadModel\<close>,
  \<open>detectObjects\<close> rejects if and only if the model is not loaded, and then with
  \<open>Error('Model not loaded')\<close>. Once the model is loaded it always resolves: to the
  empty list for a missing element, for a frame that is not decodable
  (\<open>readyState < 2\<close>), and whenever inference throws.
\<close>

theorem detectObjects_raises_iff:
  assumes "s = loadModel_run evs"
  shows "((\<exists>e. detectObjects s videoElement inference = Inl e) \<longleftrightarrow> \<not> isModelLoaded s)
       \<and> (\<not> isModelLoaded s \<longrightarrow>
            detectObjects s videoElement inference = Inl (Error ''Model not loaded''))
       \<and> (isModelLoaded s \<longrightarrow> (\<exists>ds. detectObjects s videoElement inference = Inr ds))
       \<and> (isModelLoaded s \<longrightarrow> detectObjects s None inference = Inr [])
       \<and> (isModelLoaded s \<and> readyState v < 2 \<longrightarrow> detectObjects s (Some v) inference = Inr [])
       \<and> (isModelLoaded s \<longrightarrow> detectObjects s videoElement None = Inr [])"
proof (cases "modelLoaded s")
  case False
  then show ?thesis by (simp add: detectObjects_def isModelLoaded_def)
next
  case True
  with assms have "model s \<noteq> None" using loaded_has_model by simp
  with True show ?thesis
    by (auto simp: detectObjects_def isModelLoaded_def Let_def split: option.splits)
qed

theorem detectObjects_raises_iff_witness:
  "detectObjects (loadModel_run []) (Some \<lparr>readyState = 4, videoWidth = 1280, videoHeight = 720\<rparr>)
      (Some [0.82, 0.10, 0.08]) = Inl (Error ''Model not loaded'')
   \<and> isModelLoaded (loadModel_run [CallLoadModel True, LoadResolved (LayersModel ''./model/model.json'')])
   \<and> detectObjects (loadModel_run [CallLoadModel True, LoadResolved (LayersModel ''./model/model.json'')])
        (Some \<lparr>readyState = 1, videoWidth = 0, videoHeight = 0\<rparr>) (Some [0.82, 0.10, 0.08]) = Inr []
   \<and> detectObjects (loadModel_run [CallLoadModel True, LoadResolved (LayersModel ''./model/model.json'')])
        (Some \<lparr>readyState = 4, videoWidth = 1280, videoHeight = 720\<rparr>) None = Inr []"
proof -
  have u: "\<not> isModelLoaded (loadModel_run [])"
    by (simp add: loadModel_run_def detection_init_def isModelLoaded_def)
  have l: "isModelLoaded (loadModel_run [CallLoadModel True, LoadResolved (LayersModel ''./model/model.json'')])"
    by (simp add: loadModel_run_def detection_init_def isModelLoaded_def)
  show ?thesis
    using u l
      detectObjects_raises_iff[OF refl, of "[]"
        "Some \<lparr>readyState = 4, videoWidth = 1280, videoHeight = 720\<rparr>" "Some [0.82, 0.10, 0.08]"]
      detectObjects_raises_iff[OF refl,
        of "[CallLoadModel True, LoadResolved (LayersModel ''./model/model.json'')]"
        "Some \<lparr>readyState = 4, videoWidth = 1280, videoHeight = 720\<rparr>" "Some [0.82, 0.10, 0.08]"
        "\<lparr>readyState = 1, videoWidth = 0, videoHeight = 0\<rparr>"]
    by simp
qed

section \<open>Properties of continuous detection\<close>

lemma detectObjects_coffee:
  "detectObjects detection_loaded (Some frame_ready) (Some probabilities_coffee)
     = Inr [detection_coffee]"
  by (simp add: detectObjects_def detection_loaded_def frame_ready_def probabilities_coffee_def
      detection_coffee_def winningConfidence_def winningLabel_def winner_def classNameAt_def
      classNames_def MIN_CONFIDENCE_def mapClassToProduct_def PRODUCTS_def toLowerCase_def
      toLowerCaseChar_def trim_def isWhiteSpace_def centredBox_def Let_def)

lemma poller_ready_fields:
  "detectionModule poller_ready = detection_loaded"
  "continuousDetectionId poller_ready = None"
  "continuousDetectionCallback poller_ready = None"
  "videoFeed poller_ready"
  "timers poller_ready = []"
  "nextTimer poller_ready = 1"
  "inFlight poller_ready = 0"
  "cyclesStarted poller_ready = 0"
  "invocations poller_ready = []"
  by (simp_all add: poller_ready_def poller_init_def)

lemma modelLoaded_detection_loaded: "modelLoaded detection_loaded"
  by (simp add: detection_loaded_def)

lemma poller_waiting_eq:
  "poller_waiting = poller_ready\<lparr>continuousDetectionId := Some 1,
      continuousDetectionCallback := Some ''cb'', timers := [1], nextTimer := 2,
      cyclesStarted := 1, invocations := [(''cb'', [detection_coffee])]\<rparr>"
  by (simp add: poller_waiting_def poller_run_def startContinuousDetection_def detectFrame_def
      detectFrame_resume_def setTimeout_detectFrame_def poller_ready_fields
      modelLoaded_detection_loaded detectObjects_coffee)

lemma poller_second_cycle_eq:
  "poller_second_cycle = poller_ready\<lparr>continuousDetectionId := Some 1,
      continuousDetectionCallback := Some ''cb'', timers := [], nextTimer := 2,
      inFlight := 1, cyclesStarted := 2, invocations := [(''cb'', [detection_coffee])]\<rparr>"
  by (simp add: poller_second_cycle_def poller_waiting_eq poller_run_def detectFrame_def
      poller_ready_fields)

text \<open>
  Claim C2, at a failing run. The poller is running: the first cycle has completed and
  the timeout it armed has fired, so the second cycle is in flight when \<open>stop\<close> is
  called. \<open>stop\<close> clears the handle, but when the cycle in flight completes it arms
  a new timeout and stores its handle: \<open>isContinuousDetectionRunning\<close> is true again
  with no call of \<open>start\<close>, and when that timeout fires a third cycle starts.
\<close>

theorem stop_with_cycle_in_flight_rearms:
  "isContinuousDetectionRunning poller_second_cycle
   \<and> inFlight poller_second_cycle = 1
   \<and> cyclesStarted poller_second_cycle = 2
   \<and> \<not> isContinuousDetectionRunning (poller_run poller_second_cycle [Stop])
   \<and> isContinuousDetectionRunning
       (poller_run poller_second_cycle
          [Stop, DetectionSettles frame_ready (Some probabilities_coffee)])
   \<and> cyclesStarted
       (poller_run poller_second_cycle
          [Stop, DetectionSettles frame_ready (Some probabilities_coffee), TimerFires 2]) = 3"
  by (simp add: poller_run_def poller_second_cycle_eq stopContinuousDetection_def
      detectFrame_def detectFrame_resume_def setTimeout_detectFrame_def
      isContinuousDetectionRunning_def poller_ready_fields detectObjects_coffee)

text \<open>
  Claim C3, at a failing run. \<open>stop\<close> is called while the first cycle after
  \<open>start\<close> is in flight. No timeout has been armed yet, so the handle is still
  \<open>null\<close> and \<open>stop\<close> does nothing: the callback stays set and is invoked when the
  cycle completes.
\<close>

theorem stop_during_first_cycle_keeps_callback:
  "inFlight (poller_run poller_ready [Start ''cb'']) = 1
   \<and> invocations (poller_run poller_ready [Start ''cb'', Stop]) = []
   \<and> poller_run poller_ready [Start ''cb'', Stop] = poller_run poller_ready [Start ''cb'']
   \<and> invocations
       (poller_run poller_ready
          [Start ''cb'', Stop, DetectionSettles frame_ready (Some probabilities_coffee)])
       = [(''cb'', [detection_coffee])]"
  by (simp add: poller_run_def startContinuousDetection_def stopContinuousDetection_def
      detectFrame_def detectFrame_resume_def setTimeout_detectFrame_def poller_ready_fields
      modelLoaded_detection_loaded detectObjects_coffee)

lemma idle_step: "idle s \<Longrightarrow> \<not> isStart ev \<Longrightarrow> poller_step s ev = s"
  by (cases ev) (simp_all add: idle_def stopContinuousDetection_def)

lemma idle_run: "idle s \<Longrightarrow> list_all (\<lambda>ev. \<not> isStart ev) evs \<Longrightarrow> poller_run s evs = s"
  unfolding poller_run_def
  by (induction evs) (simp_all add: idle_step)

lemma removeAll_only: "set xs \<subseteq> {t} \<Longrightarrow> removeAll t xs = []"
  by (induction xs) auto

lemma stop_idle:
  assumes "continuousDetectionId s = Some t" and "t \<noteq> 0" and "inFlight s = 0"
    and "set (timers s) \<subseteq> {t}"
  shows "idle (stopContinuousDetection s)"
proof -
  from assms(4) have "removeAll t (timers s) = []"
    by (rule removeAll_only)
  with assms show ?thesis
    by (simp add: idle_def stopContinuousDetection_def)
qed

text \<open>
  Where stopping works: \<open>stop\<close> called between two cycles, with the registered
  timeout the only one armed, leaves a poller that nothing but a call of \<open>start\<close>
  changes. No cycle starts, the callback is not invoked, and
  \<open>isContinuousDetectionRunning\<close> stays false.
\<close>

lemma stop_between_cycles_stays_idle:
  assumes "continuousDetectionId s = Some t" and "t \<noteq> 0" and "inFlight s = 0"
    and "set (timers s) \<subseteq> {t}" and "list_all (\<lambda>ev. \<not> isStart ev) evs"
  shows "poller_run (stopContinuousDetection s) evs = stopContinuousDetection s
       \<and> \<not> isContinuousDetectionRunning (poller_run (stopContinuousDetection s) evs)
       \<and> cyclesStarted (poller_run (stopContinuousDetection s) evs) = cyclesStarted s
       \<and> invocations (poller_run (stopContinuousDetection s) evs) = invocations s"
proof -
  have i: "idle (stopContinuousDetection s)"
    using assms(1-4) by (rule stop_idle)
  have "poller_run (stopContinuousDetection s) evs = stopContinuousDetection s"
    using i assms(5) by (rule idle_run)
  then show ?thesis
    using i assms(1,2)
    by (simp add: idle_def isContinuousDetectionRunning_def stopContinuousDetection_def)
qed

lemma no_callback_step:
  "continuousDetectionCallback s = None \<Longrightarrow> \<not> isStart ev \<Longrightarrow>
   continuousDetectionCallback (poller_step s ev) = None
   \<and> invocations (poller_step s ev) = invocations s"
  by (cases ev)
     (auto simp: stopContinuousDetection_def detectFrame_def detectFrame_resume_def
       setTimeout_detectFrame_def split: option.splits sum.splits)

lemma no_callback_run:
  "continuousDetectionCallback s = None \<Longrightarrow> list_all (\<lambda>ev. \<not> isStart ev) evs \<Longrightarrow>
   invocations (poller_run s evs) = invocations s"
  unfolding poller_run_def
proof (induction evs arbitrary: s)
  case Nil
  then show ?case by simp
next
  case (Cons ev evs)
  from Cons.prems have n: "\<not> isStart ev" and r: "list_all (\<lambda>ev. \<not> isStart ev) evs"
    by simp_all
  from no_callback_step[OF Cons.prems(1) n] Cons.IH[OF _ r] show ?case
    by simp
qed

text \<open>
  Whenever \<open>stop\<close> finds a handle set, also with a cycle in flight, it clears the
  callback, and the callback is not invoked again before the next \<open>start\<close>.
\<close>

lemma stop_with_handle_silences_callback:
  assumes "continuousDetectionId s = Some t" and "t \<noteq> 0"
    and "list_all (\<lambda>ev. \<not> isStart ev) evs"
  shows "invocations (poller_run (stopContinuousDetection s) evs) = invocations s"
proof -
  have "continuousDetectionCallback (stopContinuousDetection s) = None"
    and "invocations (stopContinuousDetection s) = invocations s"
    using assms(1,2) by (simp_all add: stopContinuousDetection_def)
  then show ?thesis
    using no_callback_run[OF _ assms(3)] by simp
qed

lemma stop_between_cycles_stays_idle_example:
  "continuousDetectionId poller_waiting = Some 1 \<and> inFlight poller_waiting = 0
   \<and> set (timers poller_waiting) \<subseteq> {1}
   \<and> poller_run (stopContinuousDetection poller_waiting)
        [TimerFires 1, DetectionSettles frame_ready None, Stop, TimerFires 2]
      = stopContinuousDetection poller_waiting
   \<and> cyclesStarted (poller_run (stopContinuousDetection poller_waiting)
        [TimerFires 1, DetectionSettles frame_ready None, Stop, TimerFires 2]) = 1"
proof -
  have a: "continuousDetectionId poller_waiting = Some 1" "(1::nat) \<noteq> 0"
    "inFlight poller_waiting = 0" "set (timers poller_waiting) \<subseteq> {1}"
    by (simp_all add: poller_waiting_eq poller_ready_def poller_init_def)
  have e: "list_all (\<lambda>ev. \<not> isStart ev)
             [TimerFires 1, DetectionSettles frame_ready None, Stop, TimerFires 2 :: string pollerEvent]"
    by simp
  have c: "cyclesStarted poller_waiting = 1"
    by (simp add: poller_waiting_eq)
  note t = stop_between_cycles_stays_idle[OF a e]
  from t[THEN conjunct1] t[THEN conjunct2, THEN conjunct2, THEN conjunct1] a c show ?thesis
    by (simp only: simp_thms)
qed

lemma stop_with_handle_silences_callback_example:
  "continuousDetectionId poller_second_cycle = Some 1 \<and> inFlight poller_second_cycle = 1
   \<and> invocations (poller_run (stopContinuousDetection poller_second_cycle)
        [DetectionSettles frame_ready (Some probabilities_coffee), TimerFires 2,
         DetectionSettles frame_ready (Some probabilities_coffee)])
      = [(''cb'', [detection_coffee])]
   \<and> invocations poller_second_cycle = [(''cb'', [detection_coffee])]"
proof -
  have a: "continuousDetectionId poller_second_cycle = Some 1" "(1::nat) \<noteq> 0"
    by (simp_all add: poller_second_cycle_eq)
  have b: "inFlight poller_second_cycle = 1"
    "invocations poller_second_cycle = [(''cb'', [detection_coffee])]"
    by (simp_all add: poller_second_cycle_eq)
  have e: "list_all (\<lambda>ev. \<not> isStart ev)
             [DetectionSettles frame_ready (Some probabilities_coffee), TimerFires 2,
              DetectionSettles frame_ready (Some probabilities_coffee) :: string pollerEvent]"
    by simp
  from stop_with_handle_silences_callback[OF a e] a b show ?thesis
    by simp
qed


section \<open>Properties of Stats\<close>

lemma isNumber_jsonValue: "isNumber v \<Longrightarrow> jsonValue v = v"
  by (cases v) simp_all

lemma isNumber_jsAdd: "isNumber v \<Longrightarrow> isNumber (jsAdd v n)"
  by (cases v) simp_all

lemma numeric_roundtrip: "numeric s \<Longrightarrow> JSON_parse (JSON_stringify s) = Inr s"
  by (simp add: numeric_def JSON_stringify_def isNumber_jsonValue)

lemma numeric_zero: "numeric stats_zero"
  by (simp add: numeric_def stats_zero_def)

lemma saveStats_inv: "stats_inv m \<Longrightarrow> stats_inv (saveStats m)"
  by (simp add: stats_inv_def saveStats_def storage_sound_def JSON_stringify_def numeric_def
      isNumber_jsonValue)

lemma loadStats_inv: "stats_inv m \<Longrightarrow> stats_inv (loadStats m)"
  by (auto simp: stats_inv_def loadStats_def storage_sound_def
      split: option.splits storedText.splits)

lemma stats_apply_inv: "stats_inv m \<Longrightarrow> stats_inv (stats_apply m op)"
proof (cases op)
  case Init
  assume "stats_inv m"
  then show ?thesis using loadStats_inv[of m] by (simp add: Init init_def Let_def)
next
  case (IncrementItemsScanned n)
  assume "stats_inv m"
  then have "stats_inv (m\<lparr>stats := (stats m)\<lparr>itemsScanned := jsAdd (itemsScanned (stats m)) n\<rparr>\<rparr>)"
    by (simp add: stats_inv_def numeric_def isNumber_jsAdd)
  then show ?thesis
    using saveStats_inv by (simp add: IncrementItemsScanned incrementItemsScanned_def Let_def)
next
  case IncrementOrders
  assume "stats_inv m"
  then have "stats_inv (m\<lparr>stats := (stats m)\<lparr>ordersCompleted := jsAdd (ordersCompleted (stats m)) 1\<rparr>\<rparr>)"
    by (simp add: stats_inv_def numeric_def isNumber_jsAdd)
  then show ?thesis
    using saveStats_inv by (simp add: IncrementOrders incrementOrders_def Let_def)
next
  case (AddRevenue n)
  assume "stats_inv m"
  then have "stats_inv (m\<lparr>stats := (stats m)\<lparr>totalRevenue := jsAdd (totalRevenue (stats m)) n\<rparr>\<rparr>)"
    by (simp add: stats_inv_def numeric_def isNumber_jsAdd)
  then show ?thesis
    using saveStats_inv by (simp add: AddRevenue addRevenue_def Let_def)
next
  case ResetStats
  assume "stats_inv m"
  then have "stats_inv (m\<lparr>stats := stats_zero\<rparr>)"
    by (simp add: stats_inv_def numeric_zero)
  then show ?thesis
    using saveStats_inv by (simp add: ResetStats resetStats_def Let_def)
qed simp_all

lemma stats_run_inv: "stats_inv m \<Longrightarrow> stats_inv (stats_run m ops)"
  unfolding stats_run_def
  by (induction ops arbitrary: m) (simp_all add: stats_apply_inv)

lemma stats_boot_inv: "storage_sound st \<Longrightarrow> stats_inv (stats_boot st)"
  by (simp add: stats_inv_def stats_boot_def numeric_zero)

lemma updateDisplay_numeric: "numeric (stats m) \<Longrightarrow> updateDisplay m = None"
  by (cases "totalRevenue (stats m)") (simp_all add: numeric_def updateDisplay_def)

lemma restart_after_save:
  assumes "stats_inv m"
  shows "init (stats_boot (storage (saveStats m)))
           = (None, \<lparr>stats = stats m, storage = storage (saveStats m)\<rparr>)"
proof -
  from assms have n: "numeric (stats m)" and s: "storage_sound (storage m)"
    by (simp_all add: stats_inv_def)
  from s have e: "entries (storage (saveStats m)) STORAGE_KEY = Some (JSON_stringify (stats m))"
    and g: "\<not> getItemThrows (storage (saveStats m))"
    by (simp_all add: saveStats_def storage_sound_def)
  have l: "loadStats (stats_boot (storage (saveStats m)))
            = \<lparr>stats = stats m, storage = storage (saveStats m)\<rparr>"
    using e g numeric_roundtrip[OF n] by (simp add: loadStats_def stats_boot_def)
  show ?thesis
    using n by (simp add: init_def l Let_def updateDisplay_numeric)
qed

lemma saveStats_idem: "saveStats (saveStats m) = saveStats m"
  by (simp add: saveStats_def)

lemma mutating_saved: "mutating op \<Longrightarrow> saveStats (stats_apply m op) = stats_apply m op"
  by (cases op)
     (simp_all add: incrementItemsScanned_def incrementOrders_def addRevenue_def resetStats_def
       Let_def saveStats_idem)

text \<open>
  Claim C7 as stated fails for a record the public operations reach from storage that
  holds an incomplete object: with \<open>{"itemsScanned":5,"totalRevenue":7}\<close> stored,
  \<open>init\<close> loads it without throwing, \<open>incrementOrders\<close> turns the missing
  \<open>ordersCompleted\<close> into \<open>NaN\<close>, \<open>JSON.stringify\<close> saves that as \<open>null\<close>,
  and the restarted module reads \<open>null\<close> back.
\<close>

theorem incomplete_record_does_not_survive:
  "fst (init (stats_boot storage_no_orders)) = None
   \<and> getStats (stats_run (stats_boot storage_no_orders) [Init, IncrementOrders])
       = \<lparr>itemsScanned = Number 5, ordersCompleted = NaN, totalRevenue = Number 7\<rparr>
   \<and> getStats (snd (init (stats_boot (storage (saveStats
         (stats_run (stats_boot storage_no_orders) [Init, IncrementOrders]))))))
       = \<lparr>itemsScanned = Number 5, ordersCompleted = Null, totalRevenue = Number 7\<rparr>
   \<and> getStats (snd (init (stats_boot (storage (saveStats
         (stats_run (stats_boot storage_no_orders) [Init, IncrementOrders]))))))
       \<noteq> getStats (stats_run (stats_boot storage_no_orders) [Init, IncrementOrders])"
  by (simp add: stats_run_def stats_boot_def storage_no_orders_def init_def loadStats_def
      incrementOrders_def saveStats_def updateDisplay_def getStats_def JSON_stringify_def
      stats_zero_def Let_def)

text \<open>
  Claim C7, as amended. Take any run of the public operations of Stats, in a page started
  on storage that works and holds nothing, an unparsable text or a record of three
  numbers (what the module itself writes). The counters it reaches are numbers; saving
  them and starting the module afresh on the storage (\<open>init\<close>, which calls
  \<open>loadStats\<close>) reproduces \<open>itemsScanned\<close>, \<open>ordersCompleted\<close> and
  \<open>totalRevenue\<close> exactly and throws nothing. Every operation that changes a counter
  has already saved, so a restart right after it reproduces the counters too.
\<close>

theorem stats_survive_restart:
  assumes "storage_sound st" and "m = stats_run (stats_boot st) ops"
  shows "numeric (getStats m)
       \<and> init (stats_boot (storage (saveStats m)))
           = (None, \<lparr>stats = getStats m, storage = storage (saveStats m)\<rparr>)
       \<and> getStats (snd (init (stats_boot (storage (saveStats m))))) = getStats m
       \<and> (mutating op \<longrightarrow>
            getStats (snd (init (stats_boot (storage (stats_apply m op)))))
              = getStats (stats_apply m op))"
proof -
  have i: "stats_inv m"
    using assms stats_run_inv[OF stats_boot_inv] by simp
  have j: "stats_inv (stats_apply m op)"
    using i by (rule stats_apply_inv)
  show ?thesis
    using i restart_after_save[OF i] restart_after_save[OF j] mutating_saved[of op m]
    by (auto simp: getStats_def stats_inv_def)
qed

theorem stats_survive_restart_witness:
  "storage_sound storage_empty
   \<and> getStats (stats_run (stats_boot storage_empty)
        [Init, IncrementItemsScanned 1, IncrementItemsScanned 1, IncrementOrders, AddRevenue 230])
      = \<lparr>itemsScanned = Number 2, ordersCompleted = Number 1, totalRevenue = Number 230\<rparr>
   \<and> getStats (snd (init (stats_boot (storage (saveStats (stats_run (stats_boot storage_empty)
        [Init, IncrementItemsScanned 1, IncrementItemsScanned 1, IncrementOrders, AddRevenue 230]))))))
      = \<lparr>itemsScanned = Number 2, ordersCompleted = Number 1, totalRevenue = Number 230\<rparr>"
proof -
  have s: "storage_sound storage_empty"
    by (simp add: storage_sound_def storage_empty_def)
  have r: "getStats (stats_run (stats_boot storage_empty)
        [Init, IncrementItemsScanned 1, IncrementItemsScanned 1, IncrementOrders, AddRevenue 230])
      = \<lparr>itemsScanned = Number 2, ordersCompleted = Number 1, totalRevenue = Number 230\<rparr>"
    by (simp add: stats_run_def stats_boot_def storage_empty_def init_def loadStats_def
        incrementItemsScanned_def incrementOrders_def addRevenue_def saveStats_def getStats_def
        stats_zero_def Let_def)
  note t = stats_survive_restart[OF s refl,
        of "[Init, IncrementItemsScanned 1, IncrementItemsScanned 1, IncrementOrders, AddRevenue 230]"
           ResetStats, THEN conjunct2, THEN conjunct2, THEN conjunct1]
  from s r t show ?thesis by simp
qed

text \<open>
  Claim C8 as stated fails for stored data that is corrupt but parses: a JSON object
  without all three counters is adopted as it is. The counters are then not all zero,
  and \<open>init\<close> throws a \<open>TypeError\<close> from \<open>updateDisplay\<close>.
\<close>

theorem corrupt_record_is_loaded:
  "getStats (snd (init (stats_boot storage_partial))) \<noteq> stats_zero
   \<and> fst (init (stats_boot storage_partial)) \<noteq> None"
  by (simp add: init_def loadStats_def stats_boot_def storage_partial_def getStats_def
      stats_zero_def updateDisplay_def Let_def)

text \<open>
  Claim C8, as amended. When reading the storage throws, the key is absent, or the
  stored text is not JSON, \<open>loadStats\<close> leaves the freshly started module unchanged:
  the counters are the all-zero initial ones, and neither \<open>loadStats\<close> nor
  \<open>init\<close> throws.
\<close>

theorem load_failure_keeps_zeros:
  assumes "load_fails st"
  shows "loadStats (stats_boot st) = stats_boot st
       \<and> init (stats_boot st) = (None, stats_boot st)
       \<and> getStats (snd (init (stats_boot st))) = stats_zero"
proof -
  from assms have l: "loadStats (stats_boot st) = stats_boot st"
    by (auto simp: load_fails_def loadStats_def stats_boot_def)
  have "updateDisplay (stats_boot st) = None"
    by (simp add: updateDisplay_def stats_boot_def stats_zero_def)
  with l show ?thesis
    by (simp add: init_def Let_def getStats_def stats_boot_def)
qed

theorem load_failure_keeps_zeros_witness:
  "load_fails storage_empty
   \<and> load_fails \<lparr>entries = [STORAGE_KEY \<mapsto> NotJSON], getItemThrows = False, setItemThrows = False\<rparr>
   \<and> init (stats_boot storage_empty) = (None, stats_boot storage_empty)
   \<and> getStats (snd (init (stats_boot
        \<lparr>entries = [STORAGE_KEY \<mapsto> NotJSON], getItemThrows = False, setItemThrows = False\<rparr>)))
      = stats_zero"
proof -
  have a: "load_fails storage_empty"
    by (simp add: load_fails_def storage_empty_def)
  have b: "load_fails \<lparr>entries = [STORAGE_KEY \<mapsto> NotJSON], getItemThrows = False, setItemThrows = False\<rparr>"
    by (simp add: load_fails_def)
  show ?thesis
    using a b load_failure_keeps_zeros[OF a] load_failure_keeps_zeros[OF b] by blast
qed


section \<open>Properties of export and order completion\<close>

lemma exportOrder_ok:
  "downloadThrows h = None \<Longrightarrow>
   exportOrder h files od =
     (Exported (generateOrderId h) (''order_'' @ generateOrderId h @ ''.json''),
      files @ [(''order_'' @ generateOrderId h @ ''.json'',
                \<lparr>export_orderId = generateOrderId h, export_timestamp = isoString h,
                 export_items = order_items od, export_total = order_total od,
                 export_itemsCount = order_itemsCount od\<rparr>)])"
  by (simp add: exportOrder_def downloadJSON_def Let_def)

lemma exportOrder_fails:
  "downloadThrows h = Some message \<Longrightarrow> exportOrder h files od = (ExportFailed message, files)"
  by (simp add: exportOrder_def downloadJSON_def Let_def)

lemma stopContinuousScan_frame:
  "app_cart (stopContinuousScan a) = app_cart a
   \<and> app_stats (stopContinuousScan a) = app_stats a
   \<and> app_files (stopContinuousScan a) = app_files a"
  by (simp add: stopContinuousScan_def)

lemma incrementOrders_numeric:
  "stats m = \<lparr>itemsScanned = Number k, ordersCompleted = Number n, totalRevenue = Number r\<rparr> \<Longrightarrow>
   fst (incrementOrders m) = None
   \<and> stats (snd (incrementOrders m))
       = \<lparr>itemsScanned = Number k, ordersCompleted = Number (n + 1), totalRevenue = Number r\<rparr>"
  by (simp add: incrementOrders_def Let_def saveStats_def updateDisplay_def)

lemma addRevenue_numeric:
  "stats m = \<lparr>itemsScanned = Number k, ordersCompleted = Number n, totalRevenue = Number r\<rparr> \<Longrightarrow>
   fst (addRevenue m amount) = None
   \<and> stats (snd (addRevenue m amount))
       = \<lparr>itemsScanned = Number k, ordersCompleted = Number n, totalRevenue = Number (r + amount)\<rparr>"
  by (simp add: addRevenue_def Let_def saveStats_def updateDisplay_def)

lemma getTotal_nonneg:
  "list_all (\<lambda>item. 0 \<le> item_price item) (items c) \<Longrightarrow> 0 \<le> getTotal c"
  by (auto simp: getTotal_sum_list list_all_iff intro!: sum_list_nonneg)

lemma getTotal_cart_230: "getTotal cart_230 = 230"
  by (simp add: cart_230_def cart_run_def addItem_def cart_init_def getTotal_def coffee_def
      water_def PRODUCTS_def Let_def)

lemma cart_230_not_empty: "\<not> isEmpty cart_230"
  by (simp add: cart_230_def cart_run_def addItem_def cart_init_def isEmpty_def Let_def)

text \<open>
  Claim C5 as stated fails when the counters are not all numbers. On a page whose Stats
  loaded \<open>{"itemsScanned":5,"totalRevenue":7}\<close>, with 230 DZD in the cart, the handler
  exports, adds the revenue and clears the cart without throwing, but
  \<open>ordersCompleted\<close> goes from \<open>undefined\<close> to \<open>NaN\<close>: it is not raised by one.
\<close>

theorem completeOrder_missing_counter:
  "\<not> isEmpty (app_cart app_no_orders)
   \<and> getTotal (app_cart app_no_orders) = 230
   \<and> getStats (app_stats app_no_orders)
       = \<lparr>itemsScanned = Number 5, ordersCompleted = Undefined, totalRevenue = Number 7\<rparr>
   \<and> fst (completeOrder app_no_orders host_ok True) = None
   \<and> getStats (app_stats (snd (completeOrder app_no_orders host_ok True)))
       = \<lparr>itemsScanned = Number 5, ordersCompleted = NaN, totalRevenue = Number 237\<rparr>
   \<and> isEmpty (app_cart (snd (completeOrder app_no_orders host_ok True)))
   \<and> length (app_files (snd (completeOrder app_no_orders host_ok True))) = 1"
proof -
  have s: "app_stats app_no_orders
            = \<lparr>stats = \<lparr>itemsScanned = Number 5, ordersCompleted = Undefined,
                         totalRevenue = Number 7\<rparr>,
               storage = storage_no_orders\<rparr>"
    by (simp add: app_no_orders_def init_def loadStats_def stats_boot_def storage_no_orders_def
        Let_def)
  have c: "app_cart app_no_orders = cart_230" "app_files app_no_orders = []"
    "\<not> continuousScanActive app_no_orders"
    by (simp_all add: app_no_orders_def app_230_def)
  have o: "length (order_items (getOrderData cart_230)) \<noteq> 0"
    "order_total (getOrderData cart_230) = 230"
    using cart_230_not_empty getTotal_cart_230
    by (simp_all add: getOrderData_def getItems_def isEmpty_def)
  have x: "exportOrder host_ok [] (getOrderData cart_230)
            = (Exported (generateOrderId host_ok) (''order_'' @ generateOrderId host_ok @ ''.json''),
               [(''order_'' @ generateOrderId host_ok @ ''.json'',
                 \<lparr>export_orderId = generateOrderId host_ok, export_timestamp = isoString host_ok,
                  export_items = order_items (getOrderData cart_230),
                  export_total = order_total (getOrderData cart_230),
                  export_itemsCount = order_itemsCount (getOrderData cart_230)\<rparr>)])"
    using exportOrder_ok[of host_ok "[]" "getOrderData cart_230"] by (simp add: host_ok_def)
  have r: "completeOrder app_no_orders host_ok True
            = (None, app_no_orders\<lparr>app_files := snd (exportOrder host_ok [] (getOrderData cart_230)),
                 app_stats := \<lparr>stats = \<lparr>itemsScanned = Number 5, ordersCompleted = NaN,
                                          totalRevenue = Number 237\<rparr>,
                                storage = storage_no_orders\<lparr>entries :=
                                  (entries storage_no_orders)(STORAGE_KEY \<mapsto>
                                    JSONObject \<lparr>itemsScanned = Number 5, ordersCompleted = Null,
                                                totalRevenue = Number 237\<rparr>)\<rparr>\<rparr>,
                 app_cart := clearCart cart_230, currentDetections := []\<rparr>)"
    using o x
    by (simp add: completeOrder_def Let_def s c incrementOrders_def addRevenue_def saveStats_def
        updateDisplay_def JSON_stringify_def storage_no_orders_def)
  show ?thesis
    using cart_230_not_empty getTotal_cart_230 x
    by (simp add: r s c getStats_def isEmpty_def clearCart_def)
qed

text \<open>
  The revenue follows the cart's total also when that is negative: a product with a
  negative price, which \<open>addItem\<close> accepts, lowers \<open>totalRevenue\<close>.
\<close>

lemma negative_price_lowers_revenue:
  "getStats (app_stats app_refund) = stats_zero
   \<and> fst (completeOrder app_refund host_ok True) = None
   \<and> getStats (app_stats (snd (completeOrder app_refund host_ok True)))
       = \<lparr>itemsScanned = Number 0, ordersCompleted = Number 1, totalRevenue = Number (- 50)\<rparr>"
proof -
  define c where "c = cart_run cart_init [AddItem refund None ''2026-01-01T10:00:00.000Z'']"
  have a: "app_cart app_refund = c" "app_files app_refund = []"
    "\<not> continuousScanActive app_refund" "app_stats app_refund = stats_boot storage_empty"
    by (simp_all add: app_refund_def app_230_def c_def)
  have o: "length (order_items (getOrderData c)) \<noteq> 0" "order_total (getOrderData c) = - 50"
    by (simp_all add: c_def getOrderData_def getItems_def getTotal_def cart_run_def addItem_def
        cart_init_def refund_def Let_def)
  have x: "success (fst (exportOrder host_ok [] (getOrderData c)))"
    using exportOrder_ok[of host_ok "[]" "getOrderData c"] by (simp add: host_ok_def)
  obtain r f where e: "exportOrder host_ok [] (getOrderData c) = (r, f)"
    by (cases "exportOrder host_ok [] (getOrderData c)")
  with x have r: "success r" by simp
  show ?thesis
    using o r
    by (simp add: completeOrder_def Let_def a e incrementOrders_def addRevenue_def saveStats_def
        updateDisplay_def stats_boot_def storage_empty_def stats_zero_def getStats_def)
qed

text \<open>
  Claim C5, as amended. The complete-order handler, on a cart that is not empty, with the
  dialog confirmed, the export succeeding and the three counters being numbers (as the
  module creates and saves them): throws nothing, raises \<open>ordersCompleted\<close> by exactly
  one and \<open>totalRevenue\<close> by exactly the cart's total, leaves \<open>itemsScanned\<close> alone,
  offers one file for download and leaves the cart with zero items. With no negative
  price in the cart, as for every cart of catalog products, the revenue does not decrease.
\<close>

theorem completeOrder_updates:
  assumes "\<not> isEmpty (app_cart a)"
    and "getStats (app_stats a)
          = \<lparr>itemsScanned = Number k, ordersCompleted = Number n, totalRevenue = Number r\<rparr>"
    and "downloadThrows h = None"
  shows "fst (completeOrder a h True) = None
       \<and> getStats (app_stats (snd (completeOrder a h True)))
           = \<lparr>itemsScanned = Number k, ordersCompleted = Number (n + 1),
              totalRevenue = Number (r + getTotal (app_cart a))\<rparr>
       \<and> getItemCount (app_cart (snd (completeOrder a h True))) = 0
       \<and> isEmpty (app_cart (snd (completeOrder a h True)))
       \<and> length (app_files (snd (completeOrder a h True))) = Suc (length (app_files a))
       \<and> (list_all (\<lambda>item. 0 \<le> item_price item) (items (app_cart a))
            \<longrightarrow> r \<le> r + getTotal (app_cart a))"
proof -
  define a1 where "a1 = (if continuousScanActive a then stopContinuousScan a else a)"
  define od where "od = getOrderData (app_cart a)"
  have f: "app_cart a1 = app_cart a" "app_stats a1 = app_stats a" "app_files a1 = app_files a"
    using stopContinuousScan_frame by (simp_all add: a1_def)
  have ne: "length (order_items od) \<noteq> 0"
    using assms(1) by (simp add: od_def getOrderData_def getItems_def isEmpty_def)
  have s0: "stats (app_stats a)
          = \<lparr>itemsScanned = Number k, ordersCompleted = Number n, totalRevenue = Number r\<rparr>"
    using assms(2) by (simp add: getStats_def)
  obtain s1 where i: "incrementOrders (app_stats a) = (None, s1)"
    and s1: "stats s1 = \<lparr>itemsScanned = Number k, ordersCompleted = Number (n + 1), totalRevenue = Number r\<rparr>"
    using incrementOrders_numeric[OF s0] by (cases "incrementOrders (app_stats a)") auto
  obtain s2 where r: "addRevenue s1 (order_total od) = (None, s2)"
    and s2: "stats s2 = \<lparr>itemsScanned = Number k, ordersCompleted = Number (n + 1),
                          totalRevenue = Number (r + order_total od)\<rparr>"
    using addRevenue_numeric[OF s1, of "order_total od"]
    by (cases "addRevenue s1 (order_total od)") auto
  have c: "completeOrder a h True
            = (None, a1\<lparr>app_files := snd (exportOrder h (app_files a) od), app_stats := s2,
                        app_cart := clearCart (app_cart a), currentDetections := []\<rparr>)"
    using ne i r f exportOrder_ok[OF assms(3), of "app_files a" od]
    by (simp add: completeOrder_def Let_def a1_def[symmetric] od_def[symmetric])
  have t: "order_total od = getTotal (app_cart a)"
    by (simp add: od_def getOrderData_def)
  show ?thesis
    using s2 t getTotal_nonneg[of "app_cart a"] exportOrder_ok[OF assms(3), of "app_files a" od]
    by (simp add: c getStats_def getItemCount_def isEmpty_def clearCart_def)
qed

theorem completeOrder_updates_witness:
  "\<not> isEmpty (app_cart app_230)
   \<and> getTotal (app_cart app_230) = 230
   \<and> downloadThrows host_ok = None
   \<and> getStats (app_stats app_230) = stats_zero
   \<and> fst (completeOrder app_230 host_ok True) = None
   \<and> getStats (app_stats (snd (completeOrder app_230 host_ok True)))
       = \<lparr>itemsScanned = Number 0, ordersCompleted = Number 1, totalRevenue = Number 230\<rparr>
   \<and> getItemCount (app_cart (snd (completeOrder app_230 host_ok True))) = 0"
proof -
  have e: "\<not> isEmpty (app_cart app_230)"
    using cart_230_not_empty by (simp add: app_230_def)
  have t: "getTotal (app_cart app_230) = 230"
    using getTotal_cart_230 by (simp add: app_230_def)
  have s: "getStats (app_stats app_230)
            = \<lparr>itemsScanned = Number 0, ordersCompleted = Number 0, totalRevenue = Number 0\<rparr>"
    by (simp add: app_230_def getStats_def stats_boot_def stats_zero_def)
  have d: "downloadThrows host_ok = None"
    by (simp add: host_ok_def)
  from completeOrder_updates[OF e s d] e t s d show ?thesis
    by (simp add: stats_zero_def)
qed

text \<open>
  Claim C9. \<open>exportCurrentCart\<close> on an empty cart returns the failure result with the
  message \<open>Cart is empty\<close> and offers no file: the list of downloads is unchanged.
\<close>

theorem exportCurrentCart_empty:
  assumes "isEmpty c"
  shows "exportCurrentCart h files c = (ExportFailed ''Cart is empty'', files)
       \<and> \<not> success (fst (exportCurrentCart h files c))
       \<and> snd (exportCurrentCart h files c) = files"
  using assms by (simp add: exportCurrentCart_def getOrderData_def getItems_def isEmpty_def)

theorem exportCurrentCart_empty_witness:
  "isEmpty cart_init
   \<and> exportCurrentCart host_ok [] cart_init = (ExportFailed ''Cart is empty'', [])"
proof -
  have e: "isEmpty cart_init"
    by (simp add: isEmpty_def cart_init_def)
  from exportCurrentCart_empty[OF e, of host_ok "[]"] e show ?thesis
    by simp
qed

lemma exportCurrentCart_nonempty:
  "\<not> isEmpty c \<Longrightarrow> downloadThrows h = None \<Longrightarrow>
   success (fst (exportCurrentCart h files c))
   \<and> length (snd (exportCurrentCart h files c)) = Suc (length files)"
  by (simp add: exportCurrentCart_def getOrderData_def getItems_def isEmpty_def exportOrder_ok)

lemma completeOrder_empty:
  "isEmpty (app_cart a) \<Longrightarrow> completeOrder a h confirmComplete = (None, a)"
  by (simp add: completeOrder_def getOrderData_def getItems_def isEmpty_def)

end
